theory Spec2Isabelle
  imports Complex_Main "HOL-Library.Char_ord" "HOL-Library.List_Lexorder"
begin

section \<open>Python values, exceptions and callables\<close>

text \<open>
  The exceptions the core can see; each carries what \<open>str(e)\<close> is built from, a
  \<open>KeyError\<close> the \<open>repr\<close> of its key.  \<open>SystemExit\<close> stands for the exceptions that
  are not instances of \<open>Exception\<close> (also \<open>KeyboardInterrupt\<close>): \<open>except Exception\<close>
  does not catch them.  Floats are modelled as reals, so rounding and NaN are outside
  the model.
\<close>

datatype exn =
    TypeError string
  | KeyError string
  | AttributeError string
  | ModuleNotFoundError "string option" string
  | OtherError string
  | SystemExit string

fun str_exn :: "exn \<Rightarrow> string" where
  "str_exn (TypeError m) = m"
| "str_exn (KeyError k) = k"
| "str_exn (AttributeError m) = m"
| "str_exn (ModuleNotFoundError missing m) = m"
| "str_exn (OtherError m) = m"
| "str_exn (SystemExit m) = m"

fun is_Exception :: "exn \<Rightarrow> bool" where
  "is_Exception (SystemExit m) = False"
| "is_Exception e = True"

text \<open>\<open>repr\<close> of a string that needs no escaping.\<close>

definition repr_str :: "string \<Rightarrow> string" where
  "repr_str s = [CHR 0x27] @ s @ [CHR 0x27]"

fun is_TypeError :: "exn \<Rightarrow> bool" where
  "is_TypeError (TypeError m) = True"
| "is_TypeError e = False"

datatype pyval = PyNone | PyStr string

text \<open>
  A handler as a plugin writes it: a Python callable.  Binding the arguments comes
  first: a call with a number of positional arguments the signature does not accept
  raises \<open>TypeError\<close> before the body runs, so the shared state is untouched.
  Otherwise the body runs; it returns or raises, and leaves a shared state behind.
  The type \<open>'s\<close> is the shared state a handler can read and change (the core object
  it is handed).  The interpreter's wording of the \<open>TypeError\<close> of a rejected call is
  not modelled; no code reads it.
\<close>

datatype call_args = ArgsTextCore string | ArgsText string | ArgsNone

fun n_args :: "call_args \<Rightarrow> nat" where
  "n_args (ArgsTextCore t) = 2"
| "n_args (ArgsText t) = 1"
| "n_args ArgsNone = 0"

type_synonym 's outcome = "(exn + pyval) \<times> 's"

record 's pyfunc =
  accepts :: "nat \<Rightarrow> bool"
  body :: "call_args \<Rightarrow> 's \<Rightarrow> 's outcome"

definition call :: "'s pyfunc \<Rightarrow> call_args \<Rightarrow> 's \<Rightarrow> 's outcome" where
  "call fn args core =
     (if accepts fn (n_args args) then body fn args core
      else (Inl (TypeError ''call signature rejected''), core))"

fun raised_TypeError :: "'s outcome \<Rightarrow> bool" where
  "raised_TypeError (Inl e, core) = is_TypeError e"
| "raised_TypeError (Inr v, core) = False"

text \<open>
  \<open>_wrapped\<close> of \<open>_intent_from_dict\<close>: try \<open>_fn(user_text, core)\<close>; on \<open>TypeError\<close>
  try \<open>_fn(user_text)\<close>; on \<open>TypeError\<close> again return \<open>_fn()\<close>.  Each later call
  starts from the state the earlier one left.
\<close>

definition wrapped :: "'s pyfunc \<Rightarrow> string \<Rightarrow> 's \<Rightarrow> 's outcome" where
  "wrapped fn user_text core =
     (let r2 = call fn (ArgsTextCore user_text) core in
      if raised_TypeError r2 then
        (let r1 = call fn (ArgsText user_text) (snd r2) in
         if raised_TypeError r1 then call fn ArgsNone (snd r1) else r1)
      else r2)"

section \<open>Intents and the registry\<close>

record 's intent =
  name :: string
  examples :: "string list"
  handler :: "string \<Rightarrow> 's \<Rightarrow> 's outcome"
  plugin :: string
  description :: string
  threshold :: real

text \<open>
  \<open>IntentMatch\<close>.  The source's \<open>reason\<close> is the string
  \<open>f"sim={s_score:.2f}, phrase={p_score}"\<close>; the model keeps the two numbers it is
  formatted from.
\<close>

record 's intent_match =
  intent :: "'s intent"
  score :: real
  reason_sim :: real
  reason_phrase :: real

text \<open>
  The embedding provider (spaCy in the source) is a parameter: \<open>nlp\<close> is the
  pipeline call, \<open>make_doc\<close> the tokenizer, \<open>doc_len\<close> the number of tokens (a
  \<open>Doc\<close> is truthy when it has one), \<open>similarity\<close> is \<open>Doc.similarity\<close>, which may
  raise, and \<open>phrase_found p doc\<close> says that the \<open>PhraseMatcher\<close> (on the
  \<open>LOWER\<close> attribute) finds pattern \<open>p\<close> in \<open>doc\<close>.  Adding a key to the matcher
  again extends its patterns.
\<close>

record 'd provider =
  nlp :: "string \<Rightarrow> 'd"
  make_doc :: "string \<Rightarrow> 'd"
  doc_len :: "'d \<Rightarrow> nat"
  similarity :: "'d \<Rightarrow> 'd \<Rightarrow> exn + real"
  phrase_found :: "'d \<Rightarrow> 'd \<Rightarrow> bool"

text \<open>
  The record above says what the pipeline, the tokenizer and the matcher return.
  What they refuse is a second parameter: the exception, if any, that \<open>nlp\<close> and
  \<open>make_doc\<close> raise on a text and the matcher on a document (spaCy refuses a text
  longer than its \<open>max_length\<close>; an example that is not a string is one more text
  that is refused).
\<close>

record 'd provider_failures =
  nlp_exn :: "string \<Rightarrow> exn option"
  make_doc_exn :: "string \<Rightarrow> exn option"
  matcher_exn :: "'d \<Rightarrow> exn option"

definition no_failures :: "'d provider_failures" where
  "no_failures = \<lparr>nlp_exn = (\<lambda>t. None), make_doc_exn = (\<lambda>t. None), matcher_exn = (\<lambda>d. None)\<rparr>"

text \<open>
  Each operation of the core is given twice.  First the run in which the provider
  refuses nothing and every exception of a plugin is an instance of \<open>Exception\<close>:
  \<open>register_intent\<close>, \<open>build_matchers\<close>, \<open>load_plugin_file\<close>, \<open>discover_plugins\<close>,
  \<open>route\<close> and \<open>handle\<close>.  Then, in the last section of the model, the operation
  with every raise of the source (\<open>register_intent_exn\<close> and so on), which returns
  the exception that leaves it, if any, beside the state it leaves behind.  The
  first is the second where nothing is refused.

  The registry fields of \<open>JarCore\<close>: \<open>_intents\<close>, \<open>_example_docs\<close>,
  \<open>_phrase_matcher\<close> (\<open>None\<close> before the first build; otherwise the rules added, a
  key with its patterns, in order) and \<open>_plugin_errors\<close>.
\<close>

record ('d, 's) jar_core =
  intents :: "'s intent list"
  example_docs :: "string \<times> string \<rightharpoonup> 'd"
  phrase_matcher :: "(string \<times> 'd list) list option"
  plugin_errors :: "string \<rightharpoonup> string"

definition register_intent ::
  "'d provider \<Rightarrow> 's intent \<Rightarrow> ('d, 's) jar_core \<Rightarrow> ('d, 's) jar_core" where
  "register_intent P i st =
     st\<lparr>intents := intents st @ [i],
        example_docs :=
          fold (\<lambda>ex docs. docs((name i, ex) \<mapsto> nlp P ex)) (examples i) (example_docs st)\<rparr>"

definition build_matchers :: "'d provider \<Rightarrow> ('d, 's) jar_core \<Rightarrow> ('d, 's) jar_core" where
  "build_matchers P st =
     st\<lparr>phrase_matcher :=
          Some (map (\<lambda>i. (name i, map (make_doc P) (examples i))) (intents st))\<rparr>"

section \<open>Routing\<close>

text \<open>The keys of the matches the phrase matcher reports on a document.\<close>

definition run_matcher :: "'d provider \<Rightarrow> (string \<times> 'd list) list \<Rightarrow> 'd \<Rightarrow> string list" where
  "run_matcher P rules doc =
     concat (map (\<lambda>(key, pats). map (\<lambda>p. key) (filter (\<lambda>p. phrase_found P p doc) pats)) rules)"

text \<open>
  Python's \<open>max\<close> with a key: the running best is replaced only by an item whose key
  is strictly greater.
\<close>

fun py_max_by :: "('a \<Rightarrow> real) \<Rightarrow> 'a \<Rightarrow> 'a list \<Rightarrow> 'a" where
  "py_max_by key best [] = best"
| "py_max_by key best (x # xs) = py_max_by key (if key x > key best then x else best) xs"

text \<open>
  The list comprehension of \<open>route\<close>: for each example in order, look its cached
  document up (\<open>KeyError\<close> when absent), skip it when falsy, else compute the
  similarity, which may raise.
\<close>

fun example_sims ::
  "'d provider \<Rightarrow> (string \<times> string \<rightharpoonup> 'd) \<Rightarrow> 'd \<Rightarrow> string \<Rightarrow> string list \<Rightarrow> exn + real list" where
  "example_sims P docs doc n [] = Inr []"
| "example_sims P docs doc n (ex # exs) =
     (case docs (n, ex) of
        None \<Rightarrow> Inl (KeyError (''('' @ repr_str n @ '', '' @ repr_str ex @ '')''))
      | Some e \<Rightarrow>
          if doc_len P e > 0 then
            (case similarity P doc e of
               Inl err \<Rightarrow> Inl err
             | Inr v \<Rightarrow>
                 (case example_sims P docs doc n exs of
                    Inl err \<Rightarrow> Inl err
                  | Inr vs \<Rightarrow> Inr (v # vs)))
          else example_sims P docs doc n exs)"

definition s_score_of :: "real list \<Rightarrow> real" where
  "s_score_of sims = (case sims of [] \<Rightarrow> 0 | v # vs \<Rightarrow> py_max_by (\<lambda>x. x) v vs)"

definition p_score_of :: "string list \<Rightarrow> string \<Rightarrow> real" where
  "p_score_of phrase_hits n = (if n \<in> set phrase_hits then 1 else 0)"

definition final_score :: "real \<Rightarrow> real \<Rightarrow> real" where
  "final_score s_score p_score = (s_score * 0.6) + (p_score * 0.4)"

fun score_intents ::
  "'d provider \<Rightarrow> (string \<times> string \<rightharpoonup> 'd) \<Rightarrow> 'd \<Rightarrow> string list \<Rightarrow> 's intent list
     \<Rightarrow> exn + 's intent_match list" where
  "score_intents P docs doc phrase_hits [] = Inr []"
| "score_intents P docs doc phrase_hits (i # rest) =
     (let p_score = p_score_of phrase_hits (name i) in
      case example_sims P docs doc (name i) (examples i) of
        Inl err \<Rightarrow> Inl err
      | Inr sims \<Rightarrow>
          (let s_score = s_score_of sims in
           case score_intents P docs doc phrase_hits rest of
             Inl err \<Rightarrow> Inl err
           | Inr ms \<Rightarrow>
               Inr (\<lparr>intent = i, score = final_score s_score p_score,
                      reason_sim = s_score, reason_phrase = p_score\<rparr> # ms)))"

definition phrase_hits_of :: "'d provider \<Rightarrow> ('d, 's) jar_core \<Rightarrow> 'd \<Rightarrow> string list" where
  "phrase_hits_of P st doc =
     (case phrase_matcher st of None \<Rightarrow> [] | Some rules \<Rightarrow> run_matcher P rules doc)"

text \<open>The list \<open>matches\<close> that the loop of \<open>route\<close> builds, one entry per intent.\<close>

definition route_matches ::
  "'d provider \<Rightarrow> ('d, 's) jar_core \<Rightarrow> string \<Rightarrow> exn + 's intent_match list" where
  "route_matches P st user_text =
     (let doc = nlp P user_text;
          phrase_hits = phrase_hits_of P st doc in
      score_intents P (example_docs st) doc phrase_hits (intents st))"

definition route ::
  "'d provider \<Rightarrow> ('d, 's) jar_core \<Rightarrow> string \<Rightarrow> exn + 's intent_match option" where
  "route P st user_text =
     (case route_matches P st user_text of
        Inl err \<Rightarrow> Inl err
      | Inr matches \<Rightarrow>
          Inr (case matches of [] \<Rightarrow> None | m # ms \<Rightarrow> Some (py_max_by score m ms)))"

section \<open>Dispatch\<close>

definition fallback_message :: pyval where
  "fallback_message = PyStr ''I don't understand.''"

definition chat_fallback :: "('d, 's) jar_core \<Rightarrow> string \<Rightarrow> 's \<Rightarrow> 's outcome" where
  "chat_fallback st user_text core =
     (case find (\<lambda>i. name i = ''chat'') (intents st) of
        Some chat \<Rightarrow> handler chat user_text core
      | None \<Rightarrow> (Inr fallback_message, core))"

definition handle :: "'d provider \<Rightarrow> ('d, 's) jar_core \<Rightarrow> string \<Rightarrow> 's \<Rightarrow> 's outcome" where
  "handle P st user_text core =
     (case route P st user_text of
        Inl err \<Rightarrow> (Inl err, core)
      | Inr None \<Rightarrow> chat_fallback st user_text core
      | Inr (Some best) \<Rightarrow>
          if score best < 0.4 then chat_fallback st user_text core
          else handler (intent best) user_text core)"


section \<open>Plugin discovery\<close>

text \<open>
  What a plugin file holds once executed: a module with an optional \<open>INTENTS\<close> list
  and its other attributes.  A descriptor is a dict; a key may be missing.  Its
  \<open>handler\<close> is a name to look up in the module, or an object.  Its examples are
  texts; an example of another type is one of the texts the provider refuses.
\<close>

datatype 's pyobj = Callable "'s pyfunc" | NotCallable string

datatype 's handler_ref = HandlerName string | HandlerObj "'s pyobj"

record 's descriptor =
  d_name :: "string option"
  d_examples :: "string list option"
  d_handler :: "'s handler_ref option"
  d_threshold :: "real option"

record 's pymodule =
  INTENTS :: "'s descriptor list option"
  attrs :: "string \<rightharpoonup> 's pyobj"

text \<open>
  A file of the modules directory: its name, what \<open>exec_module\<close> does the first
  time (the module, or an exception), what \<open>pip install\<close> of a missing package
  does (\<open>CalledProcessError\<close> or nothing), and what \<open>exec_module\<close> does when run
  again after the installation.
\<close>

record 's plugin_file =
  file_name :: string
  exec_first :: "exn + 's pymodule"
  pip_install :: "string \<Rightarrow> exn option"
  exec_retry :: "exn + 's pymodule"

text \<open>
  \<open>Path.stem\<close>: the name without its last suffix; a dot that starts or ends the
  name opens no suffix.
\<close>

fun rfind_dot :: "string \<Rightarrow> nat option" where
  "rfind_dot [] = None"
| "rfind_dot (c # cs) =
     (case rfind_dot cs of
        Some k \<Rightarrow> Some (Suc k)
      | None \<Rightarrow> if c = CHR ''.'' then Some 0 else None)"

definition path_stem :: "string \<Rightarrow> string" where
  "path_stem fname =
     (case rfind_dot fname of
        Some k \<Rightarrow> if 0 < k \<and> k < length fname - 1 then take k fname else fname
      | None \<Rightarrow> fname)"

definition default_chat_descriptor :: "'s descriptor" where
  "default_chat_descriptor =
     \<lparr>d_name = Some ''chat'', d_examples = Some [''talk'', ''chat'', ''hey''],
      d_handler = Some (HandlerName ''chat_with_jarvis''), d_threshold = None\<rparr>"

definition extract_intents :: "'s pymodule \<Rightarrow> 's descriptor list" where
  "extract_intents m =
     (let found = (case INTENTS m of None \<Rightarrow> [] | Some ds \<Rightarrow> ds) in
      if found = [] \<and> attrs m ''chat_with_jarvis'' \<noteq> None
      then [default_chat_descriptor] else found)"

definition resolve_handler :: "'s pymodule \<Rightarrow> string \<Rightarrow> 's handler_ref \<Rightarrow> exn + 's pyobj" where
  "resolve_handler m plugin_name h =
     (case h of
        HandlerName n \<Rightarrow>
          (case attrs m n of
             None \<Rightarrow>
               Inl (AttributeError (''module '' @ repr_str (''modules.'' @ plugin_name)
                      @ '' has no attribute '' @ repr_str n))
           | Some ob \<Rightarrow> Inr ob)
      | HandlerObj ob \<Rightarrow> Inr ob)"

definition intent_from_dict :: "'s descriptor \<Rightarrow> 's pymodule \<Rightarrow> string \<Rightarrow> exn + 's intent" where
  "intent_from_dict d m plugin_name =
     (case d_handler d of
        None \<Rightarrow> Inl (KeyError (repr_str ''handler''))
      | Some h \<Rightarrow>
          (case resolve_handler m plugin_name h of
             Inl err \<Rightarrow> Inl err
           | Inr (NotCallable r) \<Rightarrow>
               Inl (TypeError (''Handler for intent ''
                      @ repr_str (case d_name d of None \<Rightarrow> ''None'' | Some n \<Rightarrow> n)
                      @ '' is not callable: '' @ r))
           | Inr (Callable raw) \<Rightarrow>
               (case d_name d of
                  None \<Rightarrow> Inl (KeyError (repr_str ''name''))
                | Some n \<Rightarrow>
                    (case d_examples d of
                       None \<Rightarrow> Inl (KeyError (repr_str ''examples''))
                     | Some exs \<Rightarrow>
                         Inr \<lparr>name = n, examples = exs, handler = wrapped raw,
                              plugin = plugin_name, description = [],
                              threshold = (case d_threshold d of None \<Rightarrow> 0.55 | Some t \<Rightarrow> t)\<rparr>))))"

text \<open>
  The \<open>for d in intent_dicts\<close> loop of \<open>_load_plugin_file\<close>: it stops at the first
  descriptor that raises, and the intents registered before stay registered.
\<close>

fun register_descriptors ::
  "'d provider \<Rightarrow> 's pymodule \<Rightarrow> string \<Rightarrow> 's descriptor list \<Rightarrow> ('d, 's) jar_core
     \<Rightarrow> exn option \<times> ('d, 's) jar_core" where
  "register_descriptors P m plugin_name [] st = (None, st)"
| "register_descriptors P m plugin_name (d # ds) st =
     (case intent_from_dict d m plugin_name of
        Inl err \<Rightarrow> (Some err, st)
      | Inr i \<Rightarrow> register_descriptors P m plugin_name ds (register_intent P i st))"

text \<open>
  \<open>exec_module\<close> with the repair of a missing dependency: a
  \<open>ModuleNotFoundError\<close> that names the missing package leads to one installation
  and one more \<open>exec_module\<close>; every other exception, and one without a name, goes
  on to the caller.
\<close>

definition exec_with_repair :: "'s plugin_file \<Rightarrow> exn + 's pymodule" where
  "exec_with_repair f =
     (case exec_first f of
        Inr m \<Rightarrow> Inr m
      | Inl (ModuleNotFoundError missing msg) \<Rightarrow>
          (case missing of
             None \<Rightarrow> Inl (ModuleNotFoundError missing msg)
           | Some pkg \<Rightarrow>
               if pkg = [] then Inl (ModuleNotFoundError missing msg)
               else (case pip_install f pkg of
                       Some err \<Rightarrow> Inl err
                     | None \<Rightarrow> exec_retry f))
      | Inl err \<Rightarrow> Inl err)"

definition load_plugin_file ::
  "'d provider \<Rightarrow> 's plugin_file \<Rightarrow> ('d, 's) jar_core \<Rightarrow> ('d, 's) jar_core" where
  "load_plugin_file P f st =
     (let plugin_name = path_stem (file_name f) in
      case (case exec_with_repair f of
              Inl err \<Rightarrow> (Some err, st)
            | Inr m \<Rightarrow> register_descriptors P m plugin_name (extract_intents m) st) of
        (None, st') \<Rightarrow> st'
      | (Some e, st') \<Rightarrow> st'\<lparr>plugin_errors := (plugin_errors st')(plugin_name \<mapsto> str_exn e)\<rparr>)"

text \<open>
  \<open>discover_plugins\<close>, given the files that \<open>glob("*.py")\<close> finds in the modules
  directory (which \<open>mkdir\<close> makes sure exists): clear the intent list, load the files
  in sorted order but for those whose name starts with an underscore, then build the
  matcher.
\<close>

definition plugin_files :: "'s plugin_file list \<Rightarrow> 's plugin_file list" where
  "plugin_files files =
     filter (\<lambda>f. take 1 (file_name f) \<noteq> ''_'') (sort_key file_name files)"

definition discover_plugins ::
  "'d provider \<Rightarrow> 's plugin_file list \<Rightarrow> ('d, 's) jar_core \<Rightarrow> ('d, 's) jar_core" where
  "discover_plugins P files st =
     build_matchers P (fold (load_plugin_file P) (plugin_files files) (st\<lparr>intents := []\<rparr>))"

text \<open>The fields as \<open>__init__\<close> sets them, before its call of \<open>discover_plugins\<close>.\<close>

definition init_core :: "('d, 's) jar_core" where
  "init_core =
     \<lparr>intents = [], example_docs = Map.empty, phrase_matcher = None, plugin_errors = Map.empty\<rparr>"

section \<open>The operations with the provider's refusals\<close>

text \<open>
  \<open>register_intent\<close> appends the intent first and then embeds its examples one by
  one: a refused example leaves the intent in the list, with the embeddings of the
  examples before it.
\<close>

fun cache_examples_exn ::
  "'d provider_failures \<Rightarrow> 'd provider \<Rightarrow> string \<Rightarrow> string list \<Rightarrow> ('d, 's) jar_core
     \<Rightarrow> exn option \<times> ('d, 's) jar_core" where
  "cache_examples_exn R P n [] st = (None, st)"
| "cache_examples_exn R P n (ex # exs) st =
     (case nlp_exn R ex of
        Some err \<Rightarrow> (Some err, st)
      | None \<Rightarrow>
          cache_examples_exn R P n exs
            (st\<lparr>example_docs := (example_docs st)((n, ex) \<mapsto> nlp P ex)\<rparr>))"

definition register_intent_exn ::
  "'d provider_failures \<Rightarrow> 'd provider \<Rightarrow> 's intent \<Rightarrow> ('d, 's) jar_core
     \<Rightarrow> exn option \<times> ('d, 's) jar_core" where
  "register_intent_exn R P i st =
     cache_examples_exn R P (name i) (examples i) (st\<lparr>intents := intents st @ [i]\<rparr>)"

fun register_descriptors_exn ::
  "'d provider_failures \<Rightarrow> 'd provider \<Rightarrow> 's pymodule \<Rightarrow> string \<Rightarrow> 's descriptor list
     \<Rightarrow> ('d, 's) jar_core \<Rightarrow> exn option \<times> ('d, 's) jar_core" where
  "register_descriptors_exn R P m plugin_name [] st = (None, st)"
| "register_descriptors_exn R P m plugin_name (d # ds) st =
     (case intent_from_dict d m plugin_name of
        Inl err \<Rightarrow> (Some err, st)
      | Inr i \<Rightarrow>
          (case register_intent_exn R P i st of
             (Some err, st') \<Rightarrow> (Some err, st')
           | (None, st') \<Rightarrow> register_descriptors_exn R P m plugin_name ds st'))"

text \<open>
  \<open>_load_plugin_file\<close>: \<open>except Exception\<close> records an instance of \<open>Exception\<close> and
  returns; any other exception leaves the function.
\<close>

definition load_plugin_file_exn ::
  "'d provider_failures \<Rightarrow> 'd provider \<Rightarrow> 's plugin_file \<Rightarrow> ('d, 's) jar_core
     \<Rightarrow> exn option \<times> ('d, 's) jar_core" where
  "load_plugin_file_exn R P f st =
     (let plugin_name = path_stem (file_name f) in
      case (case exec_with_repair f of
              Inl err \<Rightarrow> (Some err, st)
            | Inr m \<Rightarrow> register_descriptors_exn R P m plugin_name (extract_intents m) st) of
        (None, st') \<Rightarrow> (None, st')
      | (Some e, st') \<Rightarrow>
          if is_Exception e
          then (None, st'\<lparr>plugin_errors := (plugin_errors st')(plugin_name \<mapsto> str_exn e)\<rparr>)
          else (Some e, st'))"

text \<open>The \<open>for path in sorted(...)\<close> loop of \<open>discover_plugins\<close>.\<close>

fun load_all_exn ::
  "'d provider_failures \<Rightarrow> 'd provider \<Rightarrow> 's plugin_file list \<Rightarrow> ('d, 's) jar_core
     \<Rightarrow> exn option \<times> ('d, 's) jar_core" where
  "load_all_exn R P [] st = (None, st)"
| "load_all_exn R P (f # fs) st =
     (case load_plugin_file_exn R P f st of
        (Some err, st') \<Rightarrow> (Some err, st')
      | (None, st') \<Rightarrow> load_all_exn R P fs st')"

text \<open>
  \<open>_build_matchers\<close>: the new matcher is assigned at the end, so a \<open>make_doc\<close> that
  raises leaves the matcher of the core as it was.
\<close>

fun make_patterns_exn :: "'d provider_failures \<Rightarrow> 'd provider \<Rightarrow> string list \<Rightarrow> exn + 'd list" where
  "make_patterns_exn R P [] = Inr []"
| "make_patterns_exn R P (ex # exs) =
     (case make_doc_exn R ex of
        Some err \<Rightarrow> Inl err
      | None \<Rightarrow>
          (case make_patterns_exn R P exs of
             Inl err \<Rightarrow> Inl err
           | Inr ps \<Rightarrow> Inr (make_doc P ex # ps)))"

fun build_rules_exn ::
  "'d provider_failures \<Rightarrow> 'd provider \<Rightarrow> 's intent list \<Rightarrow> exn + (string \<times> 'd list) list" where
  "build_rules_exn R P [] = Inr []"
| "build_rules_exn R P (i # rest) =
     (case make_patterns_exn R P (examples i) of
        Inl err \<Rightarrow> Inl err
      | Inr ps \<Rightarrow>
          (case build_rules_exn R P rest of
             Inl err \<Rightarrow> Inl err
           | Inr rules \<Rightarrow> Inr ((name i, ps) # rules)))"

definition build_matchers_exn ::
  "'d provider_failures \<Rightarrow> 'd provider \<Rightarrow> ('d, 's) jar_core \<Rightarrow> exn option \<times> ('d, 's) jar_core" where
  "build_matchers_exn R P st =
     (case build_rules_exn R P (intents st) of
        Inl err \<Rightarrow> (Some err, st)
      | Inr rules \<Rightarrow> (None, st\<lparr>phrase_matcher := Some rules\<rparr>))"

text \<open>
  \<open>discover_plugins\<close>: the loop over the files, then \<open>_build_matchers\<close>, which is
  outside every \<open>try\<close>.
\<close>

definition discover_plugins_exn ::
  "'d provider_failures \<Rightarrow> 'd provider \<Rightarrow> 's plugin_file list \<Rightarrow> ('d, 's) jar_core
     \<Rightarrow> exn option \<times> ('d, 's) jar_core" where
  "discover_plugins_exn R P files st =
     (case load_all_exn R P (plugin_files files) (st\<lparr>intents := []\<rparr>) of
        (Some err, st') \<Rightarrow> (Some err, st')
      | (None, st') \<Rightarrow> build_matchers_exn R P st')"

text \<open>
  \<open>route\<close> and \<open>handle\<close>: the embedding of the input and the call of the matcher come
  first and are as little guarded as the scoring.
\<close>

definition route_matches_exn ::
  "'d provider_failures \<Rightarrow> 'd provider \<Rightarrow> ('d, 's) jar_core \<Rightarrow> string
     \<Rightarrow> exn + 's intent_match list" where
  "route_matches_exn R P st user_text =
     (case nlp_exn R user_text of
        Some err \<Rightarrow> Inl err
      | None \<Rightarrow>
          (let doc = nlp P user_text in
           case (case phrase_matcher st of
                   None \<Rightarrow> Inr []
                 | Some rules \<Rightarrow>
                     (case matcher_exn R doc of
                        Some err \<Rightarrow> Inl err
                      | None \<Rightarrow> Inr (run_matcher P rules doc))) of
             Inl err \<Rightarrow> Inl err
           | Inr phrase_hits \<Rightarrow>
               score_intents P (example_docs st) doc phrase_hits (intents st)))"

definition route_exn ::
  "'d provider_failures \<Rightarrow> 'd provider \<Rightarrow> ('d, 's) jar_core \<Rightarrow> string
     \<Rightarrow> exn + 's intent_match option" where
  "route_exn R P st user_text =
     (case route_matches_exn R P st user_text of
        Inl err \<Rightarrow> Inl err
      | Inr matches \<Rightarrow>
          Inr (case matches of [] \<Rightarrow> None | m # ms \<Rightarrow> Some (py_max_by score m ms)))"

definition handle_exn ::
  "'d provider_failures \<Rightarrow> 'd provider \<Rightarrow> ('d, 's) jar_core \<Rightarrow> string \<Rightarrow> 's \<Rightarrow> 's outcome" where
  "handle_exn R P st user_text core =
     (case route_exn R P st user_text of
        Inl err \<Rightarrow> (Inl err, core)
      | Inr None \<Rightarrow> chat_fallback st user_text core
      | Inr (Some best) \<Rightarrow>
          if score best < 0.4 then chat_fallback st user_text core
          else handler (intent best) user_text core)"

section \<open>Notions the statements use\<close>

text \<open>
  The usable example embeddings of an intent: the cached documents of its examples
  that are truthy, in the order of the examples.
\<close>

definition usable_docs ::
  "'d provider \<Rightarrow> (string \<times> string \<rightharpoonup> 'd) \<Rightarrow> string \<Rightarrow> string list \<Rightarrow> 'd list" where
  "usable_docs P docs n exs =
     List.map_filter
       (\<lambda>ex. case docs (n, ex) of
                None \<Rightarrow> None
              | Some e \<Rightarrow> if doc_len P e > 0 then Some e else None) exs"

text \<open>
  Scoring one intent goes through: each of its examples has a cached document, and
  the similarity with every usable one does not raise.
\<close>

definition scoring_ok ::
  "'d provider \<Rightarrow> (string \<times> string \<rightharpoonup> 'd) \<Rightarrow> 'd \<Rightarrow> 's intent \<Rightarrow> bool" where
  "scoring_ok P docs doc i =
     list_all
       (\<lambda>ex. case docs (name i, ex) of
                None \<Rightarrow> False
              | Some e \<Rightarrow> doc_len P e = 0 \<or> \<not> isl (similarity P doc e)) (examples i)"

text \<open>The condition of \<open>handle\<close> for the fallback: \<open>not best or best.score < 0.4\<close>.\<close>

definition low_confidence :: "'s intent_match option \<Rightarrow> bool" where
  "low_confidence best = (case best of None \<Rightarrow> True | Some m \<Rightarrow> score m < 0.4)"

text \<open>The last line of \<open>route\<close>, on the list of matches.\<close>

definition pick_best :: "'s intent_match list \<Rightarrow> 's intent_match option" where
  "pick_best matches = (case matches of [] \<Rightarrow> None | m # ms \<Rightarrow> Some (py_max_by score m ms))"

text \<open>
  Two registries that are the same but for the thresholds stored in their intents:
  after every threshold is overwritten with one fixed number, nothing tells them apart.
\<close>

definition without_threshold :: "'s intent \<Rightarrow> 's intent" where
  "without_threshold i = i\<lparr>threshold := 0\<rparr>"

definition match_without_threshold :: "'s intent_match \<Rightarrow> 's intent_match" where
  "match_without_threshold m = m\<lparr>intent := without_threshold (intent m)\<rparr>"

definition same_but_thresholds :: "('d, 's) jar_core \<Rightarrow> ('d, 's) jar_core \<Rightarrow> bool" where
  "same_but_thresholds st st' \<longleftrightarrow>
     map without_threshold (intents st) = map without_threshold (intents st') \<and>
     example_docs st = example_docs st' \<and>
     phrase_matcher st = phrase_matcher st' \<and>
     plugin_errors st = plugin_errors st'"

text \<open>
  What one plugin file contributes, read off \<open>_load_plugin_file\<close>: the intents of its
  descriptors up to the first one that raises, and the exception that ends the
  loading, if any (from \<open>exec_module\<close>, the installation, or a descriptor).
\<close>

fun registered_prefix :: "'s pymodule \<Rightarrow> string \<Rightarrow> 's descriptor list \<Rightarrow> 's intent list" where
  "registered_prefix m plugin_name [] = []"
| "registered_prefix m plugin_name (d # ds) =
     (case intent_from_dict d m plugin_name of
        Inl err \<Rightarrow> []
      | Inr i \<Rightarrow> i # registered_prefix m plugin_name ds)"

fun first_failure :: "'s pymodule \<Rightarrow> string \<Rightarrow> 's descriptor list \<Rightarrow> exn option" where
  "first_failure m plugin_name [] = None"
| "first_failure m plugin_name (d # ds) =
     (case intent_from_dict d m plugin_name of
        Inl err \<Rightarrow> Some err
      | Inr i \<Rightarrow> first_failure m plugin_name ds)"


definition file_error :: "'s plugin_file \<Rightarrow> exn option" where
  "file_error f =
     (case exec_with_repair f of
        Inl err \<Rightarrow> Some err
      | Inr m \<Rightarrow> first_failure m (path_stem (file_name f)) (extract_intents m))"

text \<open>
  \<open>record_error\<close> is the \<open>except\<close> branch of \<open>_load_plugin_file\<close> on the error map,
  \<open>record_errors\<close> its effect over the files in order.  \<open>intent_keys\<close> are the keys
  of the embedding cache that belong to a list of intents.
\<close>

definition record_error :: "string \<Rightarrow> exn option \<Rightarrow> (string \<rightharpoonup> string) \<Rightarrow> (string \<rightharpoonup> string)" where
  "record_error plugin_name err errs =
     (case err of None \<Rightarrow> errs | Some e \<Rightarrow> errs(plugin_name \<mapsto> str_exn e))"

fun record_errors ::
  "('s plugin_file \<Rightarrow> exn option) \<Rightarrow> 's plugin_file list \<Rightarrow> (string \<rightharpoonup> string)
     \<Rightarrow> (string \<rightharpoonup> string)" where
  "record_errors err_of [] errs = errs"
| "record_errors err_of (f # fs) errs =
     record_errors err_of fs (record_error (path_stem (file_name f)) (err_of f) errs)"


text \<open>
  The same with the provider's refusals: loading stops also at the first intent one of
  whose examples \<open>nlp\<close> refuses, and that intent is in the list already.
  \<open>caught\<close> is what \<open>except Exception\<close> catches of an exception, \<open>escaping\<close> what it
  lets through; \<open>only_Exceptions\<close> says that loading none of the files raises
  anything but an instance of \<open>Exception\<close>.
\<close>

fun first_refusal :: "(string \<Rightarrow> exn option) \<Rightarrow> string list \<Rightarrow> exn option" where
  "first_refusal refuse [] = None"
| "first_refusal refuse (ex # exs) =
     (case refuse ex of Some err \<Rightarrow> Some err | None \<Rightarrow> first_refusal refuse exs)"

fun registered_prefix_exn ::
  "'d provider_failures \<Rightarrow> 's pymodule \<Rightarrow> string \<Rightarrow> 's descriptor list \<Rightarrow> 's intent list" where
  "registered_prefix_exn R m plugin_name [] = []"
| "registered_prefix_exn R m plugin_name (d # ds) =
     (case intent_from_dict d m plugin_name of
        Inl err \<Rightarrow> []
      | Inr i \<Rightarrow>
          (case first_refusal (nlp_exn R) (examples i) of
             Some err \<Rightarrow> [i]
           | None \<Rightarrow> i # registered_prefix_exn R m plugin_name ds))"

fun first_failure_exn ::
  "'d provider_failures \<Rightarrow> 's pymodule \<Rightarrow> string \<Rightarrow> 's descriptor list \<Rightarrow> exn option" where
  "first_failure_exn R m plugin_name [] = None"
| "first_failure_exn R m plugin_name (d # ds) =
     (case intent_from_dict d m plugin_name of
        Inl err \<Rightarrow> Some err
      | Inr i \<Rightarrow>
          (case first_refusal (nlp_exn R) (examples i) of
             Some err \<Rightarrow> Some err
           | None \<Rightarrow> first_failure_exn R m plugin_name ds))"

definition file_intents_exn :: "'d provider_failures \<Rightarrow> 's plugin_file \<Rightarrow> 's intent list" where
  "file_intents_exn R f =
     (case exec_with_repair f of
        Inl err \<Rightarrow> []
      | Inr m \<Rightarrow> registered_prefix_exn R m (path_stem (file_name f)) (extract_intents m))"

definition file_error_exn :: "'d provider_failures \<Rightarrow> 's plugin_file \<Rightarrow> exn option" where
  "file_error_exn R f =
     (case exec_with_repair f of
        Inl err \<Rightarrow> Some err
      | Inr m \<Rightarrow> first_failure_exn R m (path_stem (file_name f)) (extract_intents m))"

definition caught :: "exn option \<Rightarrow> exn option" where
  "caught err = (case err of None \<Rightarrow> None | Some e \<Rightarrow> if is_Exception e then Some e else None)"

definition escaping :: "exn option \<Rightarrow> exn option" where
  "escaping err = (case err of None \<Rightarrow> None | Some e \<Rightarrow> if is_Exception e then None else Some e)"

definition only_Exceptions :: "'d provider_failures \<Rightarrow> 's plugin_file list \<Rightarrow> bool" where
  "only_Exceptions R fs =
     list_all (\<lambda>f. case file_error_exn R f of None \<Rightarrow> True | Some e \<Rightarrow> is_Exception e) fs"

text \<open>The exception that scoring one intent raises, if any.\<close>

definition scoring_error ::
  "'d provider \<Rightarrow> (string \<times> string \<rightharpoonup> 'd) \<Rightarrow> 'd \<Rightarrow> 's intent \<Rightarrow> exn option" where
  "scoring_error P docs doc i =
     (case example_sims P docs doc (name i) (examples i) of
        Inl err \<Rightarrow> Some err
      | Inr sims \<Rightarrow> None)"

section \<open>A small registry for the examples\<close>

text \<open>
  A provider whose documents are the texts themselves: two texts are as similar as
  can be when equal, half as similar when of the same length, and the similarity with
  the text \<open>boom\<close> raises.  A pattern is found in a document equal to it.  The shared
  state is a log of the handlers that ran.
\<close>

definition stub_provider :: "string provider" where
  "stub_provider =
     \<lparr>nlp = (\<lambda>t. t), make_doc = (\<lambda>t. t), doc_len = length,
      similarity = (\<lambda>a b. if b = ''boom'' then Inl (OtherError ''no vectors'')
                           else Inr (if a = b then 1 else if length a = length b then 1 / 2 else 0)),
      phrase_found = (\<lambda>p doc. p = doc)\<rparr>"

definition greet_fn :: "string list pyfunc" where
  "greet_fn = \<lparr>accepts = (\<lambda>n. n = 2), body = (\<lambda>a log. (Inr (PyStr ''hi there''), log @ [''greet'']))\<rparr>"

definition chat_fn :: "string list pyfunc" where
  "chat_fn = \<lparr>accepts = (\<lambda>n. n = 2), body = (\<lambda>a log. (Inr (PyStr ''let us talk''), log @ [''chat'']))\<rparr>"

definition greet_module :: "string list pymodule" where
  "greet_module =
     \<lparr>INTENTS = Some [\<lparr>d_name = Some ''greet'', d_examples = Some [''hello'', ''howdy''],
                        d_handler = Some (HandlerName ''on_greet''), d_threshold = Some 0.9\<rparr>],
      attrs = [''on_greet'' \<mapsto> Callable greet_fn]\<rparr>"

definition chat_module :: "string list pymodule" where
  "chat_module = \<lparr>INTENTS = None, attrs = [''chat_with_jarvis'' \<mapsto> Callable chat_fn]\<rparr>"

definition alarm_module :: "string list pymodule" where
  "alarm_module =
     \<lparr>INTENTS = Some [\<lparr>d_name = Some ''alarm'', d_examples = Some [''boom''],
                        d_handler = Some (HandlerObj (Callable greet_fn)), d_threshold = None\<rparr>],
      attrs = Map.empty\<rparr>"

definition file_of :: "string \<Rightarrow> exn + string list pymodule \<Rightarrow> string list plugin_file" where
  "file_of fname r = \<lparr>file_name = fname, exec_first = r, pip_install = (\<lambda>pkg. None), exec_retry = r\<rparr>"

definition demo_files :: "string list plugin_file list" where
  "demo_files =
     [file_of ''greet.py'' (Inr greet_module),
      file_of ''broken.py'' (Inl (OtherError ''invalid syntax'')),
      file_of ''chat.py'' (Inr chat_module)]"

definition demo_core :: "(string, string list) jar_core" where
  "demo_core = discover_plugins stub_provider demo_files init_core"

definition alarm_core :: "(string, string list) jar_core" where
  "alarm_core =
     discover_plugins stub_provider (file_of ''alarm.py'' (Inr alarm_module) # demo_files) init_core"

definition retuned_core :: "(string, string list) jar_core" where
  "retuned_core = demo_core\<lparr>intents := map (\<lambda>i. i\<lparr>threshold := 0.1\<rparr>) (intents demo_core)\<rparr>"

text \<open>
  A handler that takes the text only, and one that takes up to two arguments and
  raises \<open>TypeError\<close> from its body after logging that it ran.
\<close>

definition echo_fn :: "string list pyfunc" where
  "echo_fn =
     \<lparr>accepts = (\<lambda>n. n = 1),
      body = (\<lambda>a log. case a of ArgsText t \<Rightarrow> (Inr (PyStr t), log @ [t])
                                | _ \<Rightarrow> (Inr PyNone, log))\<rparr>"

definition picky_fn :: "string list pyfunc" where
  "picky_fn =
     \<lparr>accepts = (\<lambda>n. n \<le> 2),
      body = (\<lambda>a log. (Inl (TypeError ''unsupported operand''), log @ [''ran'']))\<rparr>"

definition echo_module :: "string list pymodule" where
  "echo_module =
     \<lparr>INTENTS = Some [\<lparr>d_name = Some ''echo'', d_examples = Some [''repeat''],
                        d_handler = Some (HandlerName ''say''), d_threshold = None\<rparr>],
      attrs = [''say'' \<mapsto> Callable echo_fn]\<rparr>"

definition echo_core :: "(string, string list) jar_core" where
  "echo_core = discover_plugins stub_provider [file_of ''echo.py'' (Inr echo_module)] init_core"


text \<open>
  A provider that refuses the text \<open>boom\<close>, in the pipeline and the tokenizer or in the
  pipeline only, a directory with a plugin that exits the interpreter, and one with
  two files of the same stem.
\<close>

definition boom_refused :: "string provider_failures" where
  "boom_refused =
     \<lparr>nlp_exn = (\<lambda>t. if t = ''boom'' then Some (OtherError ''text refused'') else None),
      make_doc_exn = (\<lambda>t. if t = ''boom'' then Some (OtherError ''text refused'') else None),
      matcher_exn = (\<lambda>d. None)\<rparr>"

definition boom_unembedded :: "string provider_failures" where
  "boom_unembedded =
     \<lparr>nlp_exn = (\<lambda>t. if t = ''boom'' then Some (OtherError ''text refused'') else None),
      make_doc_exn = (\<lambda>t. None),
      matcher_exn = (\<lambda>d. None)\<rparr>"

definition alarm_files :: "string list plugin_file list" where
  "alarm_files = file_of ''alarm.py'' (Inr alarm_module) # demo_files"

definition exit_files :: "string list plugin_file list" where
  "exit_files =
     [file_of ''greet.py'' (Inr greet_module),
      file_of ''exit.py'' (Inl (SystemExit ''bye''))]"

definition dot_files :: "string list plugin_file list" where
  "dot_files =
     [file_of ''.py'' (Inl (OtherError ''first'')),
      file_of ''.py.py'' (Inl (OtherError ''second''))]"

section \<open>Python's max\<close>

lemma py_max_by_mem: "py_max_by key b xs \<in> set (b # xs)"
  by (induction xs arbitrary: b) auto

lemma py_max_by_ge_best: "key b \<le> key (py_max_by key b xs)"
proof (induction xs arbitrary: b)
  case Nil
  show ?case by simp
next
  case (Cons x xs)
  have "key b \<le> key (if key x > key b then x else b)" by simp
  also have "\<dots> \<le> key (py_max_by key (if key x > key b then x else b) xs)"
    by (rule Cons.IH)
  finally show ?case by simp
qed

lemma py_max_by_ge: "x \<in> set (b # xs) \<Longrightarrow> key x \<le> key (py_max_by key b xs)"
proof (induction xs arbitrary: b)
  case Nil
  then show ?case by simp
next
  case (Cons y ys)
  let ?b = "if key y > key b then y else b"
  from Cons.prems consider "x = b" | "x = y" | "x \<in> set ys" by auto
  then show ?case
  proof cases
    case 1
    have "key b \<le> key ?b" by simp
    also have "\<dots> \<le> key (py_max_by key ?b ys)" by (rule py_max_by_ge_best)
    finally show ?thesis using 1 by simp
  next
    case 2
    have "key y \<le> key ?b" by simp
    also have "\<dots> \<le> key (py_max_by key ?b ys)" by (rule py_max_by_ge_best)
    finally show ?thesis using 2 by simp
  next
    case 3
    then have "x \<in> set (?b # ys)" by simp
    then have "key x \<le> key (py_max_by key ?b ys)" by (rule Cons.IH)
    then show ?thesis by simp
  qed
qed

text \<open>The result is the first item that carries the greatest key.\<close>

lemma py_max_by_first:
  "\<exists>k < length (b # xs). py_max_by key b xs = (b # xs) ! k \<and>
      (\<forall>j < k. key ((b # xs) ! j) < key ((b # xs) ! k))"
proof (induction xs arbitrary: b)
  case Nil
  show ?case by simp
next
  case (Cons y ys)
  let ?b = "if key y > key b then y else b"
  from Cons.IH [of ?b] obtain k where k: "k < length (?b # ys)"
    "py_max_by key ?b ys = (?b # ys) ! k"
    "\<forall>j < k. key ((?b # ys) ! j) < key ((?b # ys) ! k)" by blast
  show ?case
  proof (cases k)
    case 0
    show ?thesis
    proof (cases "key y > key b")
      case True
      with 0 k have "py_max_by key b (y # ys) = (b # y # ys) ! 1" by simp
      moreover have "\<forall>j < (1::nat). key ((b # y # ys) ! j) < key ((b # y # ys) ! 1)"
        using True by simp
      ultimately show ?thesis by (intro exI [of _ 1]) simp
    next
      case False
      with 0 k have "py_max_by key b (y # ys) = (b # y # ys) ! 0" by simp
      then show ?thesis by (intro exI [of _ 0]) simp
    qed
  next
    case (Suc k')
    have lt: "key ?b < key (ys ! k')" using k(3) Suc by auto
    have "py_max_by key b (y # ys) = (b # y # ys) ! Suc k" using k(2) Suc by simp
    moreover have "\<forall>j < Suc k. key ((b # y # ys) ! j) < key ((b # y # ys) ! Suc k)"
    proof (intro allI impI)
      fix j assume j: "j < Suc k"
      show "key ((b # y # ys) ! j) < key ((b # y # ys) ! Suc k)"
      proof (cases j)
        case 0
        have "key b \<le> key ?b" by simp
        with lt show ?thesis using 0 Suc by simp
      next
        case (Suc j')
        show ?thesis
        proof (cases j')
          case 0
          have "key y \<le> key ?b" by simp
          with lt show ?thesis using 0 \<open>j = Suc j'\<close> \<open>k = Suc k'\<close> by simp
        next
          case (Suc j'')
          have "j' < k" using j \<open>j = Suc j'\<close> by simp
          with k(3) have "key ((?b # ys) ! j') < key ((?b # ys) ! k)" by blast
          then show ?thesis using Suc \<open>j = Suc j'\<close> \<open>k = Suc k'\<close> by simp
        qed
      qed
    qed
    moreover have "Suc k < length (b # y # ys)" using k(1) by simp
    ultimately show ?thesis by blast
  qed
qed

lemma py_max_by_map:
  assumes "\<And>x. key (f x) = key x"
  shows "f (py_max_by key b xs) = py_max_by key (f b) (map f xs)"
proof (induction xs arbitrary: b)
  case Nil
  show ?case by simp
next
  case (Cons x xs)
  show ?case by (simp add: Cons.IH assms)
qed

lemma s_score_of_Max: "s_score_of sims = (if sims = [] then 0 else Max (set sims))"
proof (cases sims)
  case Nil
  then show ?thesis by (simp add: s_score_of_def)
next
  case (Cons v vs)
  have "py_max_by (\<lambda>x. x) v vs = Max (set (v # vs))"
  proof (rule sym, rule Max_eqI)
    show "finite (set (v # vs))" by simp
    show "\<And>y. y \<in> set (v # vs) \<Longrightarrow> y \<le> py_max_by (\<lambda>x. x) v vs"
      by (rule py_max_by_ge)
    show "py_max_by (\<lambda>x. x) v vs \<in> set (v # vs)" by (rule py_max_by_mem)
  qed
  with Cons show ?thesis by (simp add: s_score_of_def)
qed

section \<open>Scoring\<close>

lemma example_sims_usable:
  "example_sims P docs doc n exs = Inr sims \<Longrightarrow>
     map (similarity P doc) (usable_docs P docs n exs) = map Inr sims"
proof (induction exs arbitrary: sims)
  case Nil
  then show ?case by (simp add: usable_docs_def map_filter_simps)
next
  case (Cons ex exs)
  then show ?case
    by (auto simp: usable_docs_def map_filter_simps split: option.splits if_splits sum.splits)
qed

lemma example_sims_ok_iff:
  "(\<exists>sims. example_sims P docs doc n exs = Inr sims) \<longleftrightarrow>
     list_all (\<lambda>ex. case docs (n, ex) of None \<Rightarrow> False
                     | Some e \<Rightarrow> doc_len P e = 0 \<or> \<not> isl (similarity P doc e)) exs"
proof (induction exs)
  case Nil
  show ?case by simp
next
  case (Cons ex exs)
  show ?case
  proof (cases "docs (n, ex)")
    case None
    then show ?thesis by simp
  next
    case (Some e)
    show ?thesis
    proof (cases "doc_len P e > 0")
      case False
      with Some Cons show ?thesis by simp
    next
      case True
      show ?thesis
      proof (cases "similarity P doc e")
        case (Inl err)
        with Some True show ?thesis by simp
      next
        case (Inr v)
        with Some True Cons show ?thesis by (auto split: sum.splits)
      qed
    qed
  qed
qed

lemma score_intents_shape:
  "score_intents P docs doc hits is = Inr ms \<Longrightarrow>
     list_all2 (\<lambda>i m. intent m = i \<and>
        (\<exists>sims. example_sims P docs doc (name i) (examples i) = Inr sims \<and>
           score m = final_score (s_score_of sims) (p_score_of hits (name i)) \<and>
           reason_sim m = s_score_of sims \<and> reason_phrase m = p_score_of hits (name i))) is ms"
proof (induction "is" arbitrary: ms)
  case Nil
  then show ?case by simp
next
  case (Cons i rest)
  then show ?case
    by (auto simp: Let_def split: sum.splits)
qed

lemma score_intents_ok_iff:
  "(\<exists>ms. score_intents P docs doc hits is = Inr ms) \<longleftrightarrow>
     (\<forall>i \<in> set is. scoring_ok P docs doc i)"
proof (induction "is")
  case Nil
  show ?case by simp
next
  case (Cons i rest)
  have ex: "(\<exists>sims. example_sims P docs doc (name i) (examples i) = Inr sims)
      \<longleftrightarrow> scoring_ok P docs doc i"
    unfolding scoring_ok_def by (rule example_sims_ok_iff)
  show ?case
  proof (cases "example_sims P docs doc (name i) (examples i)")
    case (Inl err)
    with ex show ?thesis by simp
  next
    case (Inr sims)
    with ex have ok: "scoring_ok P docs doc i" by simp
    show ?thesis using Inr ok Cons by (auto simp: Let_def split: sum.splits)
  qed
qed

lemma route_matches_length:
  "route_matches P st user_text = Inr ms \<Longrightarrow> length ms = length (intents st)"
  unfolding route_matches_def Let_def
  by (drule score_intents_shape) (simp add: list_all2_lengthD)


lemma final_score_bounds:
  assumes "0 \<le> s" "s \<le> 1" "p = 0 \<or> p = 1"
  shows "0 \<le> final_score s p \<and> final_score s p \<le> 1"
  using assms by (auto simp: final_score_def)

lemma run_matcher_iff:
  "n \<in> set (run_matcher P rules doc) \<longleftrightarrow>
     (\<exists>key pats p. (key, pats) \<in> set rules \<and> key = n \<and> p \<in> set pats \<and> phrase_found P p doc)"
  by (auto simp: run_matcher_def)

lemma phrase_hit_iff:
  "n \<in> set (phrase_hits_of P st doc) \<longleftrightarrow>
     (\<exists>rules key pats p. phrase_matcher st = Some rules \<and> (key, pats) \<in> set rules \<and>
        key = n \<and> p \<in> set pats \<and> phrase_found P p doc)"
  by (cases "phrase_matcher st") (simp_all add: phrase_hits_of_def run_matcher_iff)

section \<open>The example registry, evaluated\<close>

lemmas loader_defs =
  discover_plugins_def plugin_files_def load_plugin_file_def exec_with_repair_def
  extract_intents_def intent_from_dict_def resolve_handler_def register_intent_def
  build_matchers_def path_stem_def default_chat_descriptor_def init_core_def

lemmas demo_defs = demo_core_def demo_files_def file_of_def greet_module_def chat_module_def

lemmas route_defs =
  route_def route_matches_def phrase_hits_of_def run_matcher_def
  s_score_of_def p_score_of_def final_score_def

lemma demo_intents:
  "intents demo_core =
     [\<lparr>name = ''chat'', examples = [''talk'', ''chat'', ''hey''], handler = wrapped chat_fn,
        plugin = ''chat'', description = [], threshold = 0.55\<rparr>,
      \<lparr>name = ''greet'', examples = [''hello'', ''howdy''], handler = wrapped greet_fn,
        plugin = ''greet'', description = [], threshold = 0.9\<rparr>]"
  by (simp add: loader_defs demo_defs)

lemma demo_matcher:
  "phrase_matcher demo_core =
     Some [(''chat'', [''talk'', ''chat'', ''hey'']), (''greet'', [''hello'', ''howdy''])]"
  by (simp add: loader_defs demo_defs stub_provider_def)

lemma demo_docs:
  "example_docs demo_core =
     [(''chat'', ''talk'') \<mapsto> ''talk'', (''chat'', ''chat'') \<mapsto> ''chat'',
      (''chat'', ''hey'') \<mapsto> ''hey'', (''greet'', ''hello'') \<mapsto> ''hello'',
      (''greet'', ''howdy'') \<mapsto> ''howdy'']"
  by (simp add: loader_defs demo_defs stub_provider_def)

lemma demo_errors: "plugin_errors demo_core = [''broken'' \<mapsto> ''invalid syntax'']"
  by (simp add: loader_defs demo_defs)

lemma alarm_intents:
  "intents alarm_core =
     [\<lparr>name = ''alarm'', examples = [''boom''], handler = wrapped greet_fn,
        plugin = ''alarm'', description = [], threshold = 0.55\<rparr>,
      \<lparr>name = ''chat'', examples = [''talk'', ''chat'', ''hey''], handler = wrapped chat_fn,
        plugin = ''chat'', description = [], threshold = 0.55\<rparr>,
      \<lparr>name = ''greet'', examples = [''hello'', ''howdy''], handler = wrapped greet_fn,
        plugin = ''greet'', description = [], threshold = 0.9\<rparr>]"
  by (simp add: loader_defs demo_defs alarm_core_def alarm_module_def)

lemma alarm_docs:
  "example_docs alarm_core =
     [(''alarm'', ''boom'') \<mapsto> ''boom'',
      (''chat'', ''talk'') \<mapsto> ''talk'', (''chat'', ''chat'') \<mapsto> ''chat'',
      (''chat'', ''hey'') \<mapsto> ''hey'', (''greet'', ''hello'') \<mapsto> ''hello'',
      (''greet'', ''howdy'') \<mapsto> ''howdy'']"
  by (simp add: loader_defs demo_defs alarm_core_def alarm_module_def stub_provider_def)

lemma alarm_matcher:
  "phrase_matcher alarm_core =
     Some [(''alarm'', [''boom'']), (''chat'', [''talk'', ''chat'', ''hey'']),
           (''greet'', [''hello'', ''howdy''])]"
  by (simp add: loader_defs demo_defs alarm_core_def alarm_module_def stub_provider_def)

lemma demo_route_hello:
  "route stub_provider demo_core ''hello'' = Inr (Some \<lparr>intent = intents demo_core ! 1, score = 1, reason_sim = 1, reason_phrase = 1\<rparr>)"
  by (simp add: route_def route_matches_def phrase_hits_of_def run_matcher_def demo_intents demo_matcher demo_docs
      stub_provider_def s_score_of_def p_score_of_def final_score_def)

lemma demo_route_weak:
  "route stub_provider demo_core ''abcde'' =
     Inr (Some \<lparr>intent = intents demo_core ! 1, score = 3 / 10, reason_sim = 1 / 2,
                reason_phrase = 0\<rparr>)"
  by (simp add: route_defs demo_intents demo_matcher demo_docs stub_provider_def)

section \<open>Dispatch and the confidence fallback\<close>

lemma chat_fallback_first:
  assumes "k < length (intents st)" "name (intents st ! k) = ''chat''"
    "\<forall>j < k. name (intents st ! j) \<noteq> ''chat''"
  shows "chat_fallback st user_text core = handler (intents st ! k) user_text core"
proof -
  have "find (\<lambda>i. name i = ''chat'') (intents st) = Some (intents st ! k)"
    using assms by (auto simp: find_Some_iff)
  then show ?thesis by (simp add: chat_fallback_def)
qed

lemma chat_fallback_none:
  assumes "\<forall>i \<in> set (intents st). name i \<noteq> ''chat''"
  shows "chat_fallback st user_text core = (Inr (PyStr ''I don't understand.''), core)"
proof -
  have "find (\<lambda>i. name i = ''chat'') (intents st) = None"
    using assms by (simp add: find_None_iff)
  then show ?thesis by (simp add: chat_fallback_def fallback_message_def)
qed

lemma handle_low:
  "route P st user_text = Inr best \<Longrightarrow> low_confidence best \<Longrightarrow>
     handle P st user_text core = chat_fallback st user_text core"
  by (cases best) (simp_all add: handle_def low_confidence_def)

lemma handle_high:
  "route P st user_text = Inr (Some m) \<Longrightarrow> \<not> low_confidence (Some m) \<Longrightarrow>
     handle P st user_text core = handler (intent m) user_text core"
  by (simp add: handle_def low_confidence_def)

text \<open>
  C1.  Whenever \<open>route\<close> returns: if it returns no match, or a best match whose score
  is strictly below 0.4, then \<open>handle\<close> returns what the handler of the first
  registered intent named \<open>chat\<close> returns on the input text and the shared state, and
  when no intent is named \<open>chat\<close> it returns the string \<open>I don't understand.\<close> and
  leaves the shared state alone; otherwise it returns what the handler of the matched
  intent returns.
\<close>

theorem handle_confidence_fallback:
  assumes "route P st user_text = Inr best"
  shows "(low_confidence best \<longrightarrow>
            (\<forall>k < length (intents st).
               name (intents st ! k) = ''chat'' \<and> (\<forall>j < k. name (intents st ! j) \<noteq> ''chat'') \<longrightarrow>
               handle P st user_text core = handler (intents st ! k) user_text core) \<and>
            ((\<forall>i \<in> set (intents st). name i \<noteq> ''chat'') \<longrightarrow>
               handle P st user_text core = (Inr (PyStr ''I don't understand.''), core))) \<and>
         (\<forall>m. best = Some m \<and> \<not> low_confidence best \<longrightarrow>
            handle P st user_text core = handler (intent m) user_text core)"
proof (intro conjI impI allI)
  fix k
  assume low: "low_confidence best" and k: "k < length (intents st)"
    and c: "name (intents st ! k) = ''chat'' \<and> (\<forall>j < k. name (intents st ! j) \<noteq> ''chat'')"
  have "handle P st user_text core = chat_fallback st user_text core"
    using assms low by (rule handle_low)
  also have "\<dots> = handler (intents st ! k) user_text core"
    using k c by (intro chat_fallback_first) auto
  finally show "handle P st user_text core = handler (intents st ! k) user_text core" .
next
  assume low: "low_confidence best" and none: "\<forall>i \<in> set (intents st). name i \<noteq> ''chat''"
  have "handle P st user_text core = chat_fallback st user_text core"
    using assms low by (rule handle_low)
  also have "\<dots> = (Inr (PyStr ''I don't understand.''), core)"
    using none by (rule chat_fallback_none)
  finally show "handle P st user_text core = (Inr (PyStr ''I don't understand.''), core)" .
next
  fix m
  assume m: "best = Some m \<and> \<not> low_confidence best"
  with assms show "handle P st user_text core = handler (intent m) user_text core"
    by (intro handle_high) auto
qed

theorem handle_confidence_fallback_witness:
  "route stub_provider demo_core ''abcde'' =
     Inr (Some \<lparr>intent = intents demo_core ! 1, score = 3 / 10, reason_sim = 1 / 2,
                reason_phrase = 0\<rparr>) \<and>
   name (intents demo_core ! 0) = ''chat'' \<and>
   handle stub_provider demo_core ''abcde'' [] = handler (intents demo_core ! 0) ''abcde'' [] \<and>
   route stub_provider demo_core ''hello'' =
     Inr (Some \<lparr>intent = intents demo_core ! 1, score = 1, reason_sim = 1, reason_phrase = 1\<rparr>) \<and>
   handle stub_provider demo_core ''hello'' [] = handler (intents demo_core ! 1) ''hello'' [] \<and>
   handle stub_provider init_core ''hello'' ([] :: string list) = (Inr (PyStr ''I don't understand.''), [])"
proof -
  let ?weak = "\<lparr>intent = intents demo_core ! 1, score = 3 / 10, reason_sim = 1 / 2,
                reason_phrase = 0\<rparr>"
  let ?strong = "\<lparr>intent = intents demo_core ! 1, score = 1, reason_sim = 1, reason_phrase = 1\<rparr>"
  have weak: "route stub_provider demo_core ''abcde'' = Inr (Some ?weak)"
    by (rule demo_route_weak)
  have strong: "route stub_provider demo_core ''hello'' = Inr (Some ?strong)"
    by (rule demo_route_hello)
  have none: "route stub_provider (init_core :: (string, string list) jar_core) ''hello'' = Inr None"
    by (simp add: route_defs init_core_def)
  have low: "low_confidence (Some ?weak)" by (simp add: low_confidence_def)
  have high: "\<not> low_confidence (Some ?strong)" by (simp add: low_confidence_def)
  have chat: "name (intents demo_core ! 0) = ''chat''" by (simp add: demo_intents)
  have len: "0 < length (intents demo_core)" by (simp add: demo_intents)
  have "\<forall>k < length (intents demo_core).
      name (intents demo_core ! k) = ''chat'' \<and> (\<forall>j < k. name (intents demo_core ! j) \<noteq> ''chat'') \<longrightarrow>
      handle stub_provider demo_core ''abcde'' [] = handler (intents demo_core ! k) ''abcde'' []"
    using handle_confidence_fallback [OF weak, of "[]"] low by blast
  from this [rule_format, of 0] len chat
  have "handle stub_provider demo_core ''abcde'' [] = handler (intents demo_core ! 0) ''abcde'' []"
    by simp
  moreover have "handle stub_provider demo_core ''hello'' [] = handler (intents demo_core ! 1) ''hello'' []"
    using handle_confidence_fallback [OF strong, of "[]"] high by simp
  moreover have "handle stub_provider init_core ''hello'' ([] :: string list) =
      (Inr (PyStr ''I don't understand.''), [])"
    using handle_confidence_fallback [OF none, of "[] :: string list"]
    by (simp add: low_confidence_def init_core_def)
  ultimately show ?thesis using weak strong chat by simp
qed



section \<open>The best match\<close>

text \<open>
  C9.  With at least one intent registered, a \<open>route\<close> that returns gives the match of
  an intent whose score no other score exceeds, and among the intents with that
  score the one registered first: every intent before it scores strictly less.  The
  matches stand in registration order, one per intent.
\<close>

theorem route_first_maximal:
  assumes "intents st \<noteq> []" and "route P st user_text = Inr r"
  shows "\<exists>ms k. route_matches P st user_text = Inr ms \<and> length ms = length (intents st) \<and>
           (\<forall>j < length ms. intent (ms ! j) = intents st ! j) \<and>
           k < length ms \<and> r = Some (ms ! k) \<and>
           (\<forall>j < length ms. score (ms ! j) \<le> score (ms ! k)) \<and>
           (\<forall>j < k. score (ms ! j) < score (ms ! k))"
proof -
  from assms(2) obtain ms where ms: "route_matches P st user_text = Inr ms"
    by (auto simp: route_def split: sum.splits)
  have len: "length ms = length (intents st)" using ms by (rule route_matches_length)
  with assms(1) obtain m rest where mr: "ms = m # rest" by (cases ms) auto
  have ints: "\<forall>j < length ms. intent (ms ! j) = intents st ! j"
    using ms unfolding route_matches_def Let_def
    by (auto dest!: score_intents_shape simp: list_all2_conv_all_nth)
  from py_max_by_first [of m rest score] obtain k where k: "k < length ms"
    "py_max_by score m rest = ms ! k" "\<forall>j < k. score (ms ! j) < score (ms ! k)"
    unfolding mr by blast
  have r: "r = Some (ms ! k)" using assms(2) ms mr k(2) by (simp add: route_def)
  have ge: "\<forall>j < length ms. score (ms ! j) \<le> score (ms ! k)"
  proof (intro allI impI)
    fix j assume "j < length ms"
    then have "ms ! j \<in> set (m # rest)" unfolding mr [symmetric] by simp
    then have "score (ms ! j) \<le> score (py_max_by score m rest)" by (rule py_max_by_ge)
    with k(2) show "score (ms ! j) \<le> score (ms ! k)" by simp
  qed
  from ms len ints k(1) r ge k(3) show ?thesis by blast
qed

theorem route_first_maximal_witness:
  "intents demo_core \<noteq> [] \<and>
   route stub_provider demo_core ''q'' =
     Inr (Some \<lparr>intent = intents demo_core ! 0, score = 0, reason_sim = 0, reason_phrase = 0\<rparr>) \<and>
   (\<exists>ms k. route_matches stub_provider demo_core ''q'' = Inr ms \<and> length ms = 2 \<and>
      score (ms ! 0) = score (ms ! 1) \<and> k < length ms \<and>
      Some \<lparr>intent = intents demo_core ! 0, score = 0, reason_sim = 0, reason_phrase = 0\<rparr>
        = Some (ms ! k) \<and>
      (\<forall>j < length ms. score (ms ! j) \<le> score (ms ! k)) \<and>
      (\<forall>j < k. score (ms ! j) < score (ms ! k)))"
proof -
  let ?m = "\<lparr>intent = intents demo_core ! 0, score = 0, reason_sim = 0, reason_phrase = 0\<rparr>"
  have ne: "intents demo_core \<noteq> []" by (simp add: demo_intents)
  have r: "route stub_provider demo_core ''q'' = Inr (Some ?m)"
    by (simp add: route_defs demo_intents demo_matcher demo_docs stub_provider_def)
  have ms: "route_matches stub_provider demo_core ''q'' =
      Inr [?m, \<lparr>intent = intents demo_core ! 1, score = 0, reason_sim = 0, reason_phrase = 0\<rparr>]"
    by (simp add: route_defs demo_intents demo_matcher demo_docs stub_provider_def)
  from route_first_maximal [OF ne r] obtain ms' k where
    k: "route_matches stub_provider demo_core ''q'' = Inr ms'" "k < length ms'"
       "Some ?m = Some (ms' ! k)" "\<forall>j < length ms'. score (ms' ! j) \<le> score (ms' ! k)"
       "\<forall>j < k. score (ms' ! j) < score (ms' ! k)"
    by blast
  from k(1) ms have "length ms' = 2 \<and> score (ms' ! 0) = score (ms' ! 1)" by auto
  with k ne r show ?thesis by blast
qed

text \<open>
  C5.  The score of every intent is 0.6 times its semantic score plus 0.4 times its
  lexical hit.  The lexical hit is 1 when the phrase matcher reports a match under
  the intent's name (a rule under that name has a pattern found in the input), else 0.  The semantic score is the greatest similarity between
  the input and the usable example embeddings of the intent, and 0 when it has none.
  When these similarities lie between 0 and 1, so does the score.  (Scores are real
  numbers here; the source computes them in floating point.)
\<close>

theorem final_score_formula:
  assumes "route_matches P st user_text = Inr ms" and "k < length (intents st)"
  shows "\<exists>sims.
     intent (ms ! k) = intents st ! k \<and>
     map (similarity P (nlp P user_text))
       (usable_docs P (example_docs st) (name (intents st ! k)) (examples (intents st ! k)))
       = map Inr sims \<and>
     score (ms ! k) =
       0.6 * (if sims = [] then 0 else Max (set sims)) +
       0.4 * (if name (intents st ! k) \<in> set (phrase_hits_of P st (nlp P user_text)) then 1 else 0) \<and>
     ((\<forall>v \<in> set sims. 0 \<le> v \<and> v \<le> 1) \<longrightarrow> 0 \<le> score (ms ! k) \<and> score (ms ! k) \<le> 1) \<and>
     (name (intents st ! k) \<in> set (phrase_hits_of P st (nlp P user_text)) \<longleftrightarrow>
        (\<exists>rules key pats p. phrase_matcher st = Some rules \<and> (key, pats) \<in> set rules \<and>
           key = name (intents st ! k) \<and> p \<in> set pats \<and> phrase_found P p (nlp P user_text)))"
proof -
  let ?doc = "nlp P user_text"
  let ?hits = "phrase_hits_of P st ?doc"
  let ?i = "intents st ! k"
  have "list_all2 (\<lambda>i m. intent m = i \<and>
        (\<exists>sims. example_sims P (example_docs st) ?doc (name i) (examples i) = Inr sims \<and>
           score m = final_score (s_score_of sims) (p_score_of ?hits (name i)) \<and>
           reason_sim m = s_score_of sims \<and> reason_phrase m = p_score_of ?hits (name i)))
        (intents st) ms"
    using assms(1) unfolding route_matches_def Let_def by (rule score_intents_shape)
  with assms(2) obtain sims where i: "intent (ms ! k) = ?i"
    and sims: "example_sims P (example_docs st) ?doc (name ?i) (examples ?i) = Inr sims"
    and sc: "score (ms ! k) = final_score (s_score_of sims) (p_score_of ?hits (name ?i))"
    by (auto simp: list_all2_conv_all_nth)
  have us: "map (similarity P ?doc) (usable_docs P (example_docs st) (name ?i) (examples ?i))
      = map Inr sims"
    using sims by (rule example_sims_usable)
  have formula: "score (ms ! k) =
       0.6 * (if sims = [] then 0 else Max (set sims)) +
       0.4 * (if name ?i \<in> set ?hits then 1 else 0)"
    unfolding sc s_score_of_Max by (simp add: final_score_def p_score_of_def)
  have bounds: "0 \<le> score (ms ! k) \<and> score (ms ! k) \<le> 1" if b: "\<forall>v \<in> set sims. 0 \<le> v \<and> v \<le> 1"
  proof -
    have "0 \<le> s_score_of sims \<and> s_score_of sims \<le> 1"
    proof (cases "sims = []")
      case True
      then show ?thesis by (simp add: s_score_of_Max)
    next
      case False
      then have "Max (set sims) \<in> set sims" by (intro Max_in) simp_all
      with b False show ?thesis by (simp add: s_score_of_Max)
    qed
    then show ?thesis unfolding sc
      by (intro final_score_bounds) (simp_all add: p_score_of_def)
  qed
  have hit: "name ?i \<in> set ?hits \<longleftrightarrow>
        (\<exists>rules key pats p. phrase_matcher st = Some rules \<and> (key, pats) \<in> set rules \<and>
           key = name ?i \<and> p \<in> set pats \<and> phrase_found P p ?doc)"
    by (rule phrase_hit_iff)
  from i us formula bounds hit show ?thesis by blast
qed

theorem final_score_formula_witness:
  "(\<exists>ms. route_matches stub_provider demo_core ''hello'' = Inr ms \<and>
      (1::nat) < length (intents demo_core) \<and>
      intent (ms ! 1) = intents demo_core ! 1 \<and>
      usable_docs stub_provider (example_docs demo_core) ''greet'' [''hello'', ''howdy'']
        = [''hello'', ''howdy''] \<and>
      score (ms ! 1) = 0.6 * Max {1, 1 / 2} + 0.4 * 1 \<and>
      0 \<le> score (ms ! 1) \<and> score (ms ! 1) \<le> 1)"
proof -
  let ?ms = "[\<lparr>intent = intents demo_core ! 0, score = 0, reason_sim = 0, reason_phrase = 0\<rparr>,
              \<lparr>intent = intents demo_core ! 1, score = 1, reason_sim = 1, reason_phrase = 1\<rparr>]"
  have ms: "route_matches stub_provider demo_core ''hello'' = Inr ?ms"
    by (simp add: route_defs demo_intents demo_matcher demo_docs stub_provider_def)
  have k: "(1::nat) < length (intents demo_core)" by (simp add: demo_intents)
  have i1: "name (intents demo_core ! 1) = ''greet''"
    "examples (intents demo_core ! 1) = [''hello'', ''howdy'']"
    by (simp_all add: demo_intents)
  have us: "usable_docs stub_provider (example_docs demo_core) ''greet'' [''hello'', ''howdy'']
      = [''hello'', ''howdy'']"
    by (simp add: usable_docs_def map_filter_simps demo_docs stub_provider_def)
  have hit: "''greet'' \<in> set (phrase_hits_of stub_provider demo_core (nlp stub_provider ''hello''))"
    by (simp add: phrase_hits_of_def run_matcher_def demo_matcher stub_provider_def)
  from final_score_formula [OF ms k] obtain sims where
    i: "intent (?ms ! 1) = intents demo_core ! 1"
    and m: "map (similarity stub_provider (nlp stub_provider ''hello''))
         (usable_docs stub_provider (example_docs demo_core) (name (intents demo_core ! 1))
            (examples (intents demo_core ! 1))) = map Inr sims"
    and sc: "score (?ms ! 1) =
       0.6 * (if sims = [] then 0 else Max (set sims)) +
       0.4 * (if name (intents demo_core ! 1)
                 \<in> set (phrase_hits_of stub_provider demo_core (nlp stub_provider ''hello''))
              then 1 else 0)"
    and b: "(\<forall>v \<in> set sims. 0 \<le> v \<and> v \<le> 1) \<longrightarrow> 0 \<le> score (?ms ! 1) \<and> score (?ms ! 1) \<le> 1"
    by blast
  have "map Inr sims = map (Inr :: real \<Rightarrow> exn + real) [1, 1 / 2]"
    using m unfolding i1 us by (simp add: stub_provider_def)
  then have sims: "sims = [1, 1 / 2]" by (auto simp: map_eq_Cons_conv)
  have sc': "score (?ms ! 1) = 0.6 * Max {1, 1 / 2} + 0.4 * 1"
    using sc hit unfolding sims i1 by simp
  have "0 \<le> score (?ms ! 1) \<and> score (?ms ! 1) \<le> 1" using b unfolding sims by simp
  with ms k i us sc' show ?thesis by blast
qed

section \<open>Failures while scoring\<close>

lemma scoring_error_None_iff:
  "scoring_error P docs doc i = None \<longleftrightarrow> scoring_ok P docs doc i"
proof -
  have "scoring_error P docs doc i = None \<longleftrightarrow>
      (\<exists>sims. example_sims P docs doc (name i) (examples i) = Inr sims)"
    by (auto simp: scoring_error_def split: sum.splits)
  also have "\<dots> \<longleftrightarrow> scoring_ok P docs doc i"
    unfolding scoring_ok_def by (rule example_sims_ok_iff)
  finally show ?thesis .
qed

lemma example_sims_cause:
  "example_sims P docs doc n exs = Inl e \<Longrightarrow>
     \<exists>ex \<in> set exs.
       (docs (n, ex) = None \<and> e = KeyError (''('' @ repr_str n @ '', '' @ repr_str ex @ '')'')) \<or>
       (\<exists>d. docs (n, ex) = Some d \<and> 0 < doc_len P d \<and> similarity P doc d = Inl e)"
proof (induction exs)
  case Nil
  then show ?case by simp
next
  case (Cons ex exs)
  show ?case
  proof (cases "docs (n, ex)")
    case None
    with Cons.prems show ?thesis by simp
  next
    case (Some d)
    show ?thesis
    proof (cases "0 < doc_len P d")
      case False
      with Some Cons show ?thesis by simp
    next
      case True
      show ?thesis
      proof (cases "similarity P doc d")
        case (Inl err)
        with Some True Cons.prems show ?thesis by simp
      next
        case (Inr v)
        with Some True Cons show ?thesis by (auto split: sum.splits)
      qed
    qed
  qed
qed

lemma score_intents_first_failure:
  assumes "k < length is" and "\<forall>j < k. scoring_error P docs doc (is ! j) = None"
    and "scoring_error P docs doc (is ! k) = Some e"
  shows "score_intents P docs doc hits is = Inl e"
  using assms
proof (induction "is" arbitrary: k)
  case Nil
  then show ?case by simp
next
  case (Cons i rest)
  show ?case
  proof (cases k)
    case 0
    with Cons.prems(3) show ?thesis
      by (auto simp: scoring_error_def Let_def split: sum.splits)
  next
    case (Suc k')
    have "scoring_error P docs doc ((i # rest) ! 0) = None" using Cons.prems(2) Suc by blast
    then obtain sims where sims: "example_sims P docs doc (name i) (examples i) = Inr sims"
      by (auto simp: scoring_error_def split: sum.splits)
    have "\<forall>j < k'. scoring_error P docs doc (rest ! j) = None"
      using Cons.prems(2) Suc by auto
    moreover have "k' < length rest" "scoring_error P docs doc (rest ! k') = Some e"
      using Cons.prems(1,3) Suc by simp_all
    ultimately have "score_intents P docs doc hits rest = Inl e"
      by (intro Cons.IH) auto
    with sims show ?thesis by (simp add: Let_def)
  qed
qed

lemma route_exn_accepted:
  assumes "nlp_exn R user_text = None"
    and "phrase_matcher st = None \<or> matcher_exn R (nlp P user_text) = None"
  shows "route_matches_exn R P st user_text = route_matches P st user_text"
    and "route_exn R P st user_text = route P st user_text"
    and "handle_exn R P st user_text core = handle P st user_text core"
proof -
  show m: "route_matches_exn R P st user_text = route_matches P st user_text"
    using assms
    by (auto simp: route_matches_exn_def route_matches_def phrase_hits_of_def Let_def
        split: option.splits)
  show r: "route_exn R P st user_text = route P st user_text"
    by (simp add: route_exn_def route_def m)
  show "handle_exn R P st user_text core = handle P st user_text core"
    by (simp add: handle_exn_def handle_def r)
qed

lemma route_exn_no_failures:
  "route_exn no_failures P st user_text = route P st user_text"
  "handle_exn no_failures P st user_text core = handle P st user_text core"
  by (simp_all add: route_exn_accepted no_failures_def)

lemma route_exn_returns_iff:
  "(\<exists>r. route_exn R P st user_text = Inr r) \<longleftrightarrow>
     nlp_exn R user_text = None \<and>
     (phrase_matcher st = None \<or> matcher_exn R (nlp P user_text) = None) \<and>
     (\<forall>i \<in> set (intents st). scoring_ok P (example_docs st) (nlp P user_text) i)"
proof (cases "nlp_exn R user_text = None \<and>
     (phrase_matcher st = None \<or> matcher_exn R (nlp P user_text) = None)")
  case True
  then have "route_exn R P st user_text = route P st user_text"
    by (intro route_exn_accepted) auto
  moreover have "(\<exists>r. route P st user_text = Inr r) \<longleftrightarrow>
      (\<exists>ms. route_matches P st user_text = Inr ms)"
    by (auto simp: route_def split: sum.splits)
  moreover have "(\<exists>ms. route_matches P st user_text = Inr ms) \<longleftrightarrow>
      (\<forall>i \<in> set (intents st). scoring_ok P (example_docs st) (nlp P user_text) i)"
    unfolding route_matches_def Let_def by (rule score_intents_ok_iff)
  ultimately show ?thesis using True by simp
next
  case False
  then have "\<exists>e. route_matches_exn R P st user_text = Inl e"
    by (auto simp: route_matches_exn_def Let_def split: option.splits)
  then have "\<exists>e. route_exn R P st user_text = Inl e"
    by (auto simp: route_exn_def)
  with False show ?thesis by auto
qed

lemma handle_exn_raises:
  "route_exn R P st user_text = Inl e \<Longrightarrow> handle_exn R P st user_text core = (Inl e, core)"
  by (simp add: handle_exn_def)

text \<open>
  C3, as the code has it.  \<open>route\<close> returns exactly when the provider embeds the input,
  the matcher runs on it, and scoring goes through for every registered intent: each
  example has its cached embedding and no similarity with a usable one raises.
  Nothing guards the scoring of one intent: when the scoring of an intent fails and
  that of every intent before it goes through, \<open>route\<close> raises the exception of that
  intent (the one of the similarity, or the \<open>KeyError\<close> of the missing embedding), no
  score is degraded, and \<open>handle\<close> raises the same exception, calling no handler.  An
  input the provider refuses, and a matcher that raises, make \<open>route\<close> raise as well.
\<close>

theorem route_exn_raises_first_scoring_failure:
  "((\<exists>r. route_exn R P st user_text = Inr r) \<longleftrightarrow>
      nlp_exn R user_text = None \<and>
      (phrase_matcher st = None \<or> matcher_exn R (nlp P user_text) = None) \<and>
      (\<forall>i \<in> set (intents st). scoring_ok P (example_docs st) (nlp P user_text) i)) \<and>
   (\<forall>k e. nlp_exn R user_text = None \<and>
      (phrase_matcher st = None \<or> matcher_exn R (nlp P user_text) = None) \<and>
      k < length (intents st) \<and>
      (\<forall>j < k. scoring_ok P (example_docs st) (nlp P user_text) (intents st ! j)) \<and>
      scoring_error P (example_docs st) (nlp P user_text) (intents st ! k) = Some e \<longrightarrow>
      route_exn R P st user_text = Inl e \<and>
      handle_exn R P st user_text core = (Inl e, core) \<and>
      (\<exists>ex \<in> set (examples (intents st ! k)).
         (example_docs st (name (intents st ! k), ex) = None \<and>
          e = KeyError (''('' @ repr_str (name (intents st ! k)) @ '', '' @ repr_str ex @ '')'')) \<or>
         (\<exists>d. example_docs st (name (intents st ! k), ex) = Some d \<and> 0 < doc_len P d \<and>
              similarity P (nlp P user_text) d = Inl e))) \<and>
   (\<forall>e. route_exn R P st user_text = Inl e \<longrightarrow>
      handle_exn R P st user_text core = (Inl e, core)) \<and>
   (\<forall>i. scoring_error P (example_docs st) (nlp P user_text) i = None \<longleftrightarrow>
      scoring_ok P (example_docs st) (nlp P user_text) i) \<and>
   (\<forall>e. nlp_exn R user_text = Some e \<longrightarrow> route_exn R P st user_text = Inl e) \<and>
   (\<forall>e. nlp_exn R user_text = None \<and> phrase_matcher st \<noteq> None \<and>
      matcher_exn R (nlp P user_text) = Some e \<longrightarrow> route_exn R P st user_text = Inl e)"
proof (intro conjI allI impI)
  fix e assume "nlp_exn R user_text = Some e"
  then show "route_exn R P st user_text = Inl e"
    by (simp add: route_exn_def route_matches_exn_def)
next
  fix e assume "nlp_exn R user_text = None \<and> phrase_matcher st \<noteq> None \<and>
      matcher_exn R (nlp P user_text) = Some e"
  then show "route_exn R P st user_text = Inl e"
    by (auto simp: route_exn_def route_matches_exn_def Let_def)
next
  show "(\<exists>r. route_exn R P st user_text = Inr r) \<longleftrightarrow>
      nlp_exn R user_text = None \<and>
      (phrase_matcher st = None \<or> matcher_exn R (nlp P user_text) = None) \<and>
      (\<forall>i \<in> set (intents st). scoring_ok P (example_docs st) (nlp P user_text) i)"
    by (rule route_exn_returns_iff)
next
  fix i
  show "scoring_error P (example_docs st) (nlp P user_text) i = None \<longleftrightarrow>
      scoring_ok P (example_docs st) (nlp P user_text) i"
    by (rule scoring_error_None_iff)
next
  fix e assume "route_exn R P st user_text = Inl e"
  then show "handle_exn R P st user_text core = (Inl e, core)" by (rule handle_exn_raises)
next
  fix k e
  assume a: "nlp_exn R user_text = None \<and>
      (phrase_matcher st = None \<or> matcher_exn R (nlp P user_text) = None) \<and>
      k < length (intents st) \<and>
      (\<forall>j < k. scoring_ok P (example_docs st) (nlp P user_text) (intents st ! j)) \<and>
      scoring_error P (example_docs st) (nlp P user_text) (intents st ! k) = Some e"
  let ?doc = "nlp P user_text"
  have acc: "nlp_exn R user_text = None"
    "phrase_matcher st = None \<or> matcher_exn R ?doc = None" using a by auto
  have before: "\<forall>j < k. scoring_error P (example_docs st) ?doc (intents st ! j) = None"
    using a by (simp add: scoring_error_None_iff)
  have "score_intents P (example_docs st) ?doc (phrase_hits_of P st ?doc) (intents st) = Inl e"
    using a before by (intro score_intents_first_failure [of k]) auto
  then have "route_matches P st user_text = Inl e" by (simp add: route_matches_def)
  then have "route P st user_text = Inl e" by (simp add: route_def)
  then show r: "route_exn R P st user_text = Inl e"
    using route_exn_accepted(2) [OF acc] by simp
  then show "handle_exn R P st user_text core = (Inl e, core)" by (rule handle_exn_raises)
  have "example_sims P (example_docs st) ?doc (name (intents st ! k)) (examples (intents st ! k))
      = Inl e"
    using a by (auto simp: scoring_error_def split: sum.splits)
  then show "\<exists>ex \<in> set (examples (intents st ! k)).
         (example_docs st (name (intents st ! k), ex) = None \<and>
          e = KeyError (''('' @ repr_str (name (intents st ! k)) @ '', '' @ repr_str ex @ '')'')) \<or>
         (\<exists>d. example_docs st (name (intents st ! k), ex) = Some d \<and> 0 < doc_len P d \<and>
              similarity P ?doc d = Inl e)"
    by (rule example_sims_cause)
qed

theorem route_exn_raises_first_scoring_failure_witness:
  "nlp_exn (no_failures :: string provider_failures) ''hello'' = None \<and>
   matcher_exn (no_failures :: string provider_failures) (nlp stub_provider ''hello'') = None \<and>
   scoring_error stub_provider (example_docs alarm_core) (nlp stub_provider ''hello'')
     (intents alarm_core ! 0) = Some (OtherError ''no vectors'') \<and>
   route_exn no_failures stub_provider alarm_core ''hello'' = Inl (OtherError ''no vectors'') \<and>
   handle_exn no_failures stub_provider alarm_core ''hello'' []
     = (Inl (OtherError ''no vectors''), []) \<and>
   list_all (scoring_ok stub_provider (example_docs demo_core) (nlp stub_provider ''hello''))
     (intents demo_core) \<and>
   (\<exists>r. route_exn no_failures stub_provider demo_core ''hello'' = Inr r) \<and>
   nlp_exn boom_refused ''boom'' = Some (OtherError ''text refused'') \<and>
   \<not> (\<exists>r. route_exn boom_refused stub_provider demo_core ''boom'' = Inr r)"
proof -
  let ?N = "no_failures :: string provider_failures"
  have acc: "nlp_exn ?N ''hello'' = None" "matcher_exn ?N (nlp stub_provider ''hello'') = None"
    by (simp_all add: no_failures_def)
  have err: "scoring_error stub_provider (example_docs alarm_core) (nlp stub_provider ''hello'')
     (intents alarm_core ! 0) = Some (OtherError ''no vectors'')"
    by (simp add: scoring_error_def alarm_intents alarm_docs stub_provider_def)
  have k: "0 < length (intents alarm_core)" by (simp add: alarm_intents)
  note t = route_exn_raises_first_scoring_failure
  from t [of ?N stub_provider alarm_core "''hello''" "[] :: string list"]
  have "\<forall>k e. nlp_exn ?N ''hello'' = None \<and>
      (phrase_matcher alarm_core = None \<or> matcher_exn ?N (nlp stub_provider ''hello'') = None) \<and>
      k < length (intents alarm_core) \<and>
      (\<forall>j < k. scoring_ok stub_provider (example_docs alarm_core) (nlp stub_provider ''hello'')
                 (intents alarm_core ! j)) \<and>
      scoring_error stub_provider (example_docs alarm_core) (nlp stub_provider ''hello'')
        (intents alarm_core ! k) = Some e \<longrightarrow>
      route_exn ?N stub_provider alarm_core ''hello'' = Inl e \<and>
      handle_exn ?N stub_provider alarm_core ''hello'' [] = (Inl e, [])"
    by blast
  from this [rule_format, of 0 "OtherError ''no vectors''"] acc k err
  have raised: "route_exn ?N stub_provider alarm_core ''hello'' = Inl (OtherError ''no vectors'') \<and>
      handle_exn ?N stub_provider alarm_core ''hello'' [] = (Inl (OtherError ''no vectors''), [])"
    by simp
  have ok: "list_all (scoring_ok stub_provider (example_docs demo_core) (nlp stub_provider ''hello''))
     (intents demo_core)"
    by (simp add: scoring_ok_def demo_intents demo_docs stub_provider_def)
  have ret: "\<exists>r. route_exn ?N stub_provider demo_core ''hello'' = Inr r"
    using t [of ?N stub_provider demo_core "''hello''" "[] :: string list", THEN conjunct1]
      acc ok
    by (simp add: list_all_iff)
  have ref: "nlp_exn boom_refused ''boom'' = Some (OtherError ''text refused'')"
    by (simp add: boom_refused_def)
  have nret: "\<not> (\<exists>r. route_exn boom_refused stub_provider demo_core ''boom'' = Inr r)"
    using t [of boom_refused stub_provider demo_core "''boom''" "[] :: string list",
        THEN conjunct1] ref
    by simp
  from acc err raised ok ret ref nret show ?thesis by blast
qed

text \<open>
  C3 as stated fails: in the registry below the similarity raises for the one example
  of the intent \<open>alarm\<close>, the two other intents can be scored, and \<open>route\<close> raises; so
  does \<open>handle\<close>.
\<close>

theorem route_raises_on_one_scoring_failure:
  "route stub_provider alarm_core ''hello'' = Inl (OtherError ''no vectors'') \<and>
   name (intents alarm_core ! 0) = ''alarm'' \<and>
   \<not> scoring_ok stub_provider (example_docs alarm_core) (nlp stub_provider ''hello'')
       (intents alarm_core ! 0) \<and>
   scoring_ok stub_provider (example_docs alarm_core) (nlp stub_provider ''hello'')
       (intents alarm_core ! 1) \<and>
   scoring_ok stub_provider (example_docs alarm_core) (nlp stub_provider ''hello'')
       (intents alarm_core ! 2) \<and>
   handle stub_provider alarm_core ''hello'' [] = (Inl (OtherError ''no vectors''), [])"
  by (simp add: route_defs handle_def scoring_ok_def alarm_intents alarm_docs alarm_matcher
      stub_provider_def)

section \<open>The threshold field\<close>

lemma without_threshold_fields:
  assumes "without_threshold i = without_threshold i'"
  shows "name i = name i'" and "examples i = examples i'" and "handler i = handler i'"
proof -
  have "name (without_threshold i) = name (without_threshold i')"
    "examples (without_threshold i) = examples (without_threshold i')"
    "handler (without_threshold i) = handler (without_threshold i')"
    using assms by simp_all
  then show "name i = name i'" and "examples i = examples i'" and "handler i = handler i'"
    by (simp_all add: without_threshold_def)
qed

lemma score_intents_without_threshold:
  assumes "list_all2 (\<lambda>i i'. without_threshold i = without_threshold i') is is'"
  shows "map_sum id (map match_without_threshold) (score_intents P docs doc hits is) =
         map_sum id (map match_without_threshold) (score_intents P docs doc hits is')"
  using assms
proof (induction rule: list_all2_induct)
  case Nil
  show ?case by simp
next
  case (Cons i "is" i' is')
  have n: "name i = name i'" and e: "examples i = examples i'"
    using Cons.hyps(1) by (rule without_threshold_fields)+
  show ?case
  proof (cases "example_sims P docs doc (name i') (examples i')")
    case (Inl err)
    then show ?thesis by (simp add: n e)
  next
    case (Inr sims)
    show ?thesis
    proof (cases "score_intents P docs doc hits is")
      case (Inl err)
      with Cons.IH obtain err' where "score_intents P docs doc hits is' = Inl err'" "err' = err"
        by (cases "score_intents P docs doc hits is'") auto
      with Inl Inr show ?thesis by (simp add: n e)
    next
      case Inr2: (Inr ms)
      with Cons.IH obtain ms' where ms': "score_intents P docs doc hits is' = Inr ms'"
        "map match_without_threshold ms = map match_without_threshold ms'"
        by (cases "score_intents P docs doc hits is'") auto
      have rec: "\<And>s a b. match_without_threshold
            \<lparr>intent = i, score = s, reason_sim = a, reason_phrase = b\<rparr> =
          match_without_threshold \<lparr>intent = i', score = s, reason_sim = a, reason_phrase = b\<rparr>"
        using Cons.hyps(1) by (simp add: match_without_threshold_def)
      show ?thesis using Inr Inr2 ms' rec
        by (simp add: n e Let_def)
    qed
  qed
qed

lemma pick_best_without_threshold:
  "map_option match_without_threshold (pick_best ms) = pick_best (map match_without_threshold ms)"
proof (cases ms)
  case Nil
  then show ?thesis by (simp add: pick_best_def)
next
  case (Cons m rest)
  have "match_without_threshold (py_max_by score m rest) =
      py_max_by score (match_without_threshold m) (map match_without_threshold rest)"
    by (rule py_max_by_map) (simp add: match_without_threshold_def)
  with Cons show ?thesis by (simp add: pick_best_def)
qed

lemma route_via_matches:
  "map_sum id (map_option match_without_threshold) (route P st user_text) =
     (case map_sum id (map match_without_threshold) (route_matches P st user_text) of
        Inl err \<Rightarrow> Inl err | Inr ms \<Rightarrow> Inr (pick_best ms))"
proof (cases "route_matches P st user_text")
  case (Inl err)
  then show ?thesis by (simp add: route_def)
next
  case (Inr ms)
  have "route P st user_text = Inr (pick_best ms)"
    using Inr by (simp add: route_def pick_best_def)
  with Inr show ?thesis by (simp add: pick_best_without_threshold)
qed

lemma same_but_thresholds_rel:
  "same_but_thresholds st st' \<Longrightarrow>
     list_all2 (\<lambda>i i'. without_threshold i = without_threshold i') (intents st) (intents st')"
proof -
  assume "same_but_thresholds st st'"
  then have m: "map without_threshold (intents st) = map without_threshold (intents st')"
    by (simp add: same_but_thresholds_def)
  then have "length (intents st) = length (intents st')" by (rule map_eq_imp_length_eq)
  moreover have "\<forall>k < length (intents st).
      without_threshold (intents st ! k) = without_threshold (intents st' ! k)"
  proof (intro allI impI)
    fix k assume k: "k < length (intents st)"
    have "map without_threshold (intents st) ! k = map without_threshold (intents st') ! k"
      using m by simp
    with k \<open>length (intents st) = length (intents st')\<close>
    show "without_threshold (intents st ! k) = without_threshold (intents st' ! k)" by simp
  qed
  ultimately show ?thesis by (simp add: list_all2_conv_all_nth)
qed

lemma find_chat_rel:
  assumes "list_all2 (\<lambda>i i'. without_threshold i = without_threshold i') is is'"
  shows "map_option handler (find (\<lambda>i. name i = ''chat'') is) =
         map_option handler (find (\<lambda>i. name i = ''chat'') is')"
  using assms
proof (induction rule: list_all2_induct)
  case Nil
  show ?case by simp
next
  case (Cons i "is" i' is')
  have "name i = name i'" and "handler i = handler i'"
    using Cons.hyps(1) by (rule without_threshold_fields)+
  with Cons.IH show ?case by simp
qed

lemma chat_fallback_via_handler:
  "chat_fallback st user_text core =
     (case map_option handler (find (\<lambda>i. name i = ''chat'') (intents st)) of
        Some h \<Rightarrow> h user_text core | None \<Rightarrow> (Inr fallback_message, core))"
  by (simp add: chat_fallback_def split: option.splits)

lemma handle_via_route:
  "handle P st user_text core =
     (case map_sum id (map_option match_without_threshold) (route P st user_text) of
        Inl err \<Rightarrow> (Inl err, core)
      | Inr None \<Rightarrow> chat_fallback st user_text core
      | Inr (Some best) \<Rightarrow>
          if score best < 0.4 then chat_fallback st user_text core
          else handler (intent best) user_text core)"
  by (simp add: handle_def match_without_threshold_def without_threshold_def
      split: sum.splits option.splits)

lemma low_confidence_without_threshold:
  "low_confidence (map_option match_without_threshold best) = low_confidence best"
  by (cases best) (simp_all add: low_confidence_def match_without_threshold_def)

lemma retuned_same: "same_but_thresholds demo_core retuned_core"
  by (simp add: same_but_thresholds_def retuned_core_def without_threshold_def demo_intents)

text \<open>
  C6.  Two registries that differ in the thresholds of their intents only cannot be
  told apart by routing or dispatch: on every input \<open>route\<close> raises the same error or
  selects the same intent (up to its threshold) with the same score, the choice
  between fallback and dispatch is the same, and \<open>handle\<close> gives the same outcome.
\<close>

theorem threshold_never_consulted:
  assumes "same_but_thresholds st st'"
  shows "map_sum id (map_option match_without_threshold) (route P st user_text) =
           map_sum id (map_option match_without_threshold) (route P st' user_text) \<and>
         map_sum id low_confidence (route P st user_text) =
           map_sum id low_confidence (route P st' user_text) \<and>
         handle P st user_text core = handle P st' user_text core"
proof -
  have rel: "list_all2 (\<lambda>i i'. without_threshold i = without_threshold i') (intents st) (intents st')"
    using assms by (rule same_but_thresholds_rel)
  have docs: "example_docs st = example_docs st'" and pm: "phrase_matcher st = phrase_matcher st'"
    using assms by (simp_all add: same_but_thresholds_def)
  have hits: "phrase_hits_of P st (nlp P user_text) = phrase_hits_of P st' (nlp P user_text)"
    by (simp add: phrase_hits_of_def pm)
  have ms: "map_sum id (map match_without_threshold) (route_matches P st user_text) =
            map_sum id (map match_without_threshold) (route_matches P st' user_text)"
    unfolding route_matches_def Let_def docs hits
    using rel by (rule score_intents_without_threshold)
  have r: "map_sum id (map_option match_without_threshold) (route P st user_text) =
           map_sum id (map_option match_without_threshold) (route P st' user_text)"
    unfolding route_via_matches ms ..
  have "map_sum id low_confidence (route P st user_text) =
        map_sum id low_confidence (map_sum id (map_option match_without_threshold) (route P st user_text))"
    by (cases "route P st user_text") (simp_all add: low_confidence_without_threshold)
  also have "\<dots> = map_sum id low_confidence
        (map_sum id (map_option match_without_threshold) (route P st' user_text))"
    unfolding r ..
  also have "\<dots> = map_sum id low_confidence (route P st' user_text)"
    by (cases "route P st' user_text") (simp_all add: low_confidence_without_threshold)
  finally have low: "map_sum id low_confidence (route P st user_text) =
           map_sum id low_confidence (route P st' user_text)" .
  have fb: "chat_fallback st user_text core = chat_fallback st' user_text core"
    unfolding chat_fallback_via_handler find_chat_rel [OF rel] ..
  have "handle P st user_text core = handle P st' user_text core"
    unfolding handle_via_route r fb ..
  with r low show ?thesis by blast
qed

theorem threshold_never_consulted_witness:
  "same_but_thresholds demo_core retuned_core \<and>
   map threshold (intents demo_core) = [0.55, 0.9] \<and>
   map threshold (intents retuned_core) = [0.1, 0.1] \<and>
   map_sum id (map_option match_without_threshold) (route stub_provider demo_core ''abcde'') =
     map_sum id (map_option match_without_threshold) (route stub_provider retuned_core ''abcde'') \<and>
   map_sum id low_confidence (route stub_provider retuned_core ''abcde'') = Inr True \<and>
   handle stub_provider retuned_core ''abcde'' [] = handle stub_provider demo_core ''abcde'' []"
proof -
  have th: "map threshold (intents demo_core) = [0.55, 0.9]"
    "map threshold (intents retuned_core) = [0.1, 0.1]"
    by (simp_all add: retuned_core_def demo_intents)
  have low: "map_sum id low_confidence (route stub_provider demo_core ''abcde'') = Inr True"
    by (simp add: demo_route_weak low_confidence_def)
  from threshold_never_consulted [OF retuned_same, of stub_provider "''abcde''" "[]"] th low
  show ?thesis using retuned_same by simp
qed

section \<open>The wrapped handler\<close>

lemma call_accepted: "accepts fn (n_args a) \<Longrightarrow> call fn a core = body fn a core"
  by (simp add: call_def)

lemma call_rejected:
  "\<not> accepts fn (n_args a) \<Longrightarrow> call fn a core = (Inl (TypeError ''call signature rejected''), core)"
  by (simp add: call_def)

lemma intent_from_dict_handler:
  assumes "intent_from_dict d m plugin_name = Inr i"
  shows "\<exists>h raw. d_handler d = Some h \<and> resolve_handler m plugin_name h = Inr (Callable raw) \<and>
           handler i = wrapped raw"
  using assms
  by (auto simp: intent_from_dict_def split: option.splits sum.splits pyobj.splits)

lemma echo_intents:
  "intents echo_core =
     [\<lparr>name = ''echo'', examples = [''repeat''], handler = wrapped echo_fn,
        plugin = ''echo'', description = [], threshold = 0.55\<rparr>]"
  by (simp add: loader_defs echo_core_def echo_module_def file_of_def)

lemma echo_route:
  "route stub_provider echo_core ''repeat'' =
     Inr (Some \<lparr>intent = intents echo_core ! 0, score = 1, reason_sim = 1, reason_phrase = 1\<rparr>)"
  by (simp add: route_defs echo_intents loader_defs echo_core_def echo_module_def file_of_def
      stub_provider_def)

text \<open>
  C7.  The handler of an intent built from a descriptor is the wrapper around the
  callable the descriptor resolves to.  The wrapper first calls it with the text and
  the shared state; when that signature is rejected (and the state therefore
  untouched) it calls it with the text only; when that is rejected too, with no
  argument.  So a handler that accepts one argument only runs once, on the text.
\<close>

theorem wrapped_arity_fallback:
  "(accepts fn 2 \<and> \<not> raised_TypeError (body fn (ArgsTextCore user_text) core) \<longrightarrow>
      wrapped fn user_text core = body fn (ArgsTextCore user_text) core) \<and>
   (\<not> accepts fn 2 \<and> accepts fn 1 \<and> \<not> raised_TypeError (body fn (ArgsText user_text) core) \<longrightarrow>
      wrapped fn user_text core = body fn (ArgsText user_text) core) \<and>
   (\<not> accepts fn 2 \<and> \<not> accepts fn 1 \<longrightarrow> wrapped fn user_text core = call fn ArgsNone core) \<and>
   (\<forall>d m plugin_name h i.
      intent_from_dict d m plugin_name = Inr i \<and> d_handler d = Some h \<and>
      resolve_handler m plugin_name h = Inr (Callable fn) \<longrightarrow>
      handler i = wrapped fn)"
proof (intro conjI impI allI)
  assume "accepts fn 2 \<and> \<not> raised_TypeError (body fn (ArgsTextCore user_text) core)"
  then show "wrapped fn user_text core = body fn (ArgsTextCore user_text) core"
    by (simp add: wrapped_def call_def Let_def)
next
  assume "\<not> accepts fn 2 \<and> accepts fn 1 \<and> \<not> raised_TypeError (body fn (ArgsText user_text) core)"
  then show "wrapped fn user_text core = body fn (ArgsText user_text) core"
    by (simp add: wrapped_def call_def Let_def)
next
  assume "\<not> accepts fn 2 \<and> \<not> accepts fn 1"
  then show "wrapped fn user_text core = call fn ArgsNone core"
    by (simp add: wrapped_def call_def Let_def)
next
  fix d m plugin_name h i
  assume a: "intent_from_dict d m plugin_name = Inr i \<and> d_handler d = Some h \<and>
      resolve_handler m plugin_name h = Inr (Callable fn)"
  then obtain h' raw where "d_handler d = Some h'"
    "resolve_handler m plugin_name h' = Inr (Callable raw)" "handler i = wrapped raw"
    using intent_from_dict_handler by blast
  with a show "handler i = wrapped fn" by simp
qed

theorem wrapped_arity_fallback_witness:
  "\<not> accepts echo_fn 2 \<and> accepts echo_fn 1 \<and>
   \<not> raised_TypeError (body echo_fn (ArgsText ''repeat'') []) \<and>
   handler (intents echo_core ! 0) = wrapped echo_fn \<and>
   wrapped echo_fn ''repeat'' [] = body echo_fn (ArgsText ''repeat'') [] \<and>
   handle stub_provider echo_core ''repeat'' [] = (Inr (PyStr ''repeat''), [''repeat'']) \<and>
   accepts greet_fn 2 \<and>
   wrapped greet_fn ''hello'' [] = (Inr (PyStr ''hi there''), [''greet''])"
proof -
  have g: "accepts greet_fn 2" "\<not> raised_TypeError (body greet_fn (ArgsTextCore ''hello'') [])"
    by (simp_all add: greet_fn_def)
  have "wrapped greet_fn ''hello'' [] = body greet_fn (ArgsTextCore ''hello'') []"
    using wrapped_arity_fallback [of greet_fn "''hello''" "[]"] g by blast
  then have wg: "wrapped greet_fn ''hello'' [] = (Inr (PyStr ''hi there''), [''greet''])"
    by (simp add: greet_fn_def)
  have a: "\<not> accepts echo_fn 2" "accepts echo_fn 1"
    "\<not> raised_TypeError (body echo_fn (ArgsText ''repeat'') [])"
    by (simp_all add: echo_fn_def)
  have h: "handler (intents echo_core ! 0) = wrapped echo_fn" by (simp add: echo_intents)
  have w: "wrapped echo_fn ''repeat'' [] = body echo_fn (ArgsText ''repeat'') []"
    using wrapped_arity_fallback [of echo_fn "''repeat''" "[]"] a by blast
  have "handle stub_provider echo_core ''repeat'' [] = handler (intents echo_core ! 0) ''repeat'' []"
    by (simp add: handle_def echo_route)
  also have "\<dots> = body echo_fn (ArgsText ''repeat'') []" unfolding h w ..
  also have "\<dots> = (Inr (PyStr ''repeat''), [''repeat''])" by (simp add: echo_fn_def)
  finally show ?thesis using a h w g(1) wg by blast
qed

text \<open>
  C10.  The fallback is taken on every \<open>TypeError\<close>, also one raised inside the body of
  a handler that accepts the text and the state: the wrapper then calls the handler
  with the text only, from the state the first run left, and on another \<open>TypeError\<close>
  with no argument.  A handler that accepts all three signatures and raises
  \<open>TypeError\<close> each time runs three times, and the effects of the earlier runs stay.
\<close>

theorem wrapped_reruns_after_body_TypeError:
  assumes "accepts fn 2" and "raised_TypeError (body fn (ArgsTextCore user_text) core)"
  shows "wrapped fn user_text core =
           (let r1 = call fn (ArgsText user_text) (snd (body fn (ArgsTextCore user_text) core))
            in if raised_TypeError r1 then call fn ArgsNone (snd r1) else r1) \<and>
         (accepts fn 1 \<and> accepts fn 0 \<and>
          raised_TypeError (body fn (ArgsText user_text) (snd (body fn (ArgsTextCore user_text) core)))
          \<longrightarrow> wrapped fn user_text core =
                body fn ArgsNone
                  (snd (body fn (ArgsText user_text)
                         (snd (body fn (ArgsTextCore user_text) core)))))"
  using assms by (simp add: wrapped_def call_def Let_def)

theorem wrapped_reruns_after_body_TypeError_witness:
  "accepts picky_fn 2 \<and> accepts picky_fn 1 \<and> accepts picky_fn 0 \<and>
   raised_TypeError (body picky_fn (ArgsTextCore ''x'') []) \<and>
   wrapped picky_fn ''x'' [] =
     (Inl (TypeError ''unsupported operand''), [''ran'', ''ran'', ''ran''])"
proof -
  have a: "accepts picky_fn 2" "accepts picky_fn 1" "accepts picky_fn 0"
    by (simp_all add: picky_fn_def)
  have r: "raised_TypeError (body picky_fn (ArgsTextCore ''x'') [])"
    by (simp add: picky_fn_def)
  have r1: "raised_TypeError (body picky_fn (ArgsText ''x'') (snd (body picky_fn (ArgsTextCore ''x'') [])))"
    by (simp add: picky_fn_def)
  from wrapped_reruns_after_body_TypeError [OF a(1) r] a r1
  have "wrapped picky_fn ''x'' [] =
      body picky_fn ArgsNone (snd (body picky_fn (ArgsText ''x'')
        (snd (body picky_fn (ArgsTextCore ''x'') []))))"
    by blast
  also have "\<dots> = (Inl (TypeError ''unsupported operand''), [''ran'', ''ran'', ''ran''])"
    by (simp add: picky_fn_def)
  finally show ?thesis using a r by blast
qed

section \<open>Discovery\<close>

lemma register_descriptors_eq:
  "register_descriptors P m plugin_name ds st =
     (first_failure m plugin_name ds, fold (register_intent P) (registered_prefix m plugin_name ds) st)"
  by (induction ds arbitrary: st) (simp_all split: sum.splits)










lemma record_errors_dom:
  "n \<in> dom errs \<Longrightarrow> n \<in> dom (record_errors err_of fs errs)"
proof (induction fs arbitrary: errs)
  case Nil
  then show ?case by simp
next
  case (Cons f fs)
  have "n \<in> dom (record_error (path_stem (file_name f)) (err_of f) errs)"
    using Cons.prems by (auto simp: record_error_def split: option.splits)
  then show ?case by (simp add: Cons.IH)
qed

lemma record_errors_other:
  "n \<notin> (\<lambda>f. path_stem (file_name f)) ` set fs \<Longrightarrow> record_errors err_of fs errs n = errs n"
proof (induction fs arbitrary: errs)
  case Nil
  then show ?case by simp
next
  case (Cons f fs)
  then show ?case by (auto simp: record_error_def split: option.splits)
qed

lemma record_errors_failed:
  assumes "f \<in> set fs" and "err_of f = Some e"
  shows "path_stem (file_name f) \<in> dom (record_errors err_of fs errs)"
  using assms(1)
proof (induction fs arbitrary: errs)
  case Nil
  then show ?case by simp
next
  case (Cons g gs)
  show ?case
  proof (cases "f = g")
    case True
    have "path_stem (file_name f) \<in> dom (record_error (path_stem (file_name g)) (err_of g) errs)"
      using True assms(2) by (simp add: record_error_def)
    then show ?thesis by (simp add: record_errors_dom)
  next
    case False
    with Cons.prems have "f \<in> set gs" by simp
    then show ?thesis by (simp add: Cons.IH)
  qed
qed

lemma record_errors_distinct:
  assumes "f \<in> set fs" and "distinct (map (\<lambda>f. path_stem (file_name f)) fs)"
  shows "record_errors err_of fs errs (path_stem (file_name f)) =
     record_error (path_stem (file_name f)) (err_of f) errs (path_stem (file_name f))"
  using assms
proof (induction fs arbitrary: errs)
  case Nil
  then show ?case by simp
next
  case (Cons g gs)
  show ?case
  proof (cases "f = g")
    case True
    have "path_stem (file_name g) \<notin> (\<lambda>f. path_stem (file_name f)) ` set gs"
      using Cons.prems(2) by simp
    then show ?thesis using True by (simp add: record_errors_other)
  next
    case False
    with Cons.prems have mem: "f \<in> set gs" and d: "distinct (map (\<lambda>f. path_stem (file_name f)) gs)"
      by simp_all
    have "path_stem (file_name f) \<in> (\<lambda>f. path_stem (file_name f)) ` set gs"
      using mem by (rule imageI)
    moreover have "path_stem (file_name g) \<notin> (\<lambda>f. path_stem (file_name f)) ` set gs"
      using Cons.prems(2) by simp
    ultimately have ne: "path_stem (file_name f) \<noteq> path_stem (file_name g)"
      by metis
    have "record_errors err_of (g # gs) errs (path_stem (file_name f)) =
        record_error (path_stem (file_name f)) (err_of f)
          (record_error (path_stem (file_name g)) (err_of g) errs) (path_stem (file_name f))"
      using Cons.IH [OF mem d] by simp
    also have "\<dots> = record_error (path_stem (file_name f)) (err_of f) errs (path_stem (file_name f))"
      using ne by (auto simp: record_error_def split: option.splits)
    finally show ?thesis .
  qed
qed

lemma demo_plugin_files:
  "plugin_files demo_files =
     [file_of ''broken.py'' (Inl (OtherError ''invalid syntax'')),
      file_of ''chat.py'' (Inr chat_module),
      file_of ''greet.py'' (Inr greet_module)]"
  by (simp add: plugin_files_def demo_files_def file_of_def)





section \<open>Discovery with the provider's refusals\<close>

text \<open>The operations of the first kind are those of the second where nothing is refused.\<close>

lemma cache_examples_exn_no_failures:
  "cache_examples_exn no_failures P n exs st =
     (None, st\<lparr>example_docs :=
                 fold (\<lambda>ex docs. docs((n, ex) \<mapsto> nlp P ex)) exs (example_docs st)\<rparr>)"
  by (induction exs arbitrary: st) (simp_all add: no_failures_def)

lemma register_intent_exn_no_failures:
  "register_intent_exn no_failures P i st = (None, register_intent P i st)"
  by (simp add: register_intent_exn_def register_intent_def cache_examples_exn_no_failures)

lemma register_descriptors_exn_no_failures:
  "register_descriptors_exn no_failures P m pn ds st = register_descriptors P m pn ds st"
  by (induction ds arbitrary: st)
     (simp_all add: register_intent_exn_no_failures split: sum.splits)

lemma load_plugin_file_exn_no_failures:
  assumes "case file_error f of None \<Rightarrow> True | Some e \<Rightarrow> is_Exception e"
  shows "load_plugin_file_exn no_failures P f st = (None, load_plugin_file P f st)"
proof (cases "exec_with_repair f")
  case (Inl err)
  with assms show ?thesis
    by (simp add: load_plugin_file_exn_def load_plugin_file_def file_error_def)
next
  case (Inr m)
  let ?pn = "path_stem (file_name f)"
  have r: "register_descriptors P m ?pn (extract_intents m) st =
      (first_failure m ?pn (extract_intents m),
       fold (register_intent P) (registered_prefix m ?pn (extract_intents m)) st)"
    by (rule register_descriptors_eq)
  show ?thesis
  proof (cases "first_failure m ?pn (extract_intents m)")
    case None
    with Inr r show ?thesis
      by (simp add: load_plugin_file_exn_def load_plugin_file_def Let_def
          register_descriptors_exn_no_failures)
  next
    case (Some e)
    with assms Inr have "is_Exception e" by (simp add: file_error_def)
    with Some Inr r show ?thesis
      by (simp add: load_plugin_file_exn_def load_plugin_file_def Let_def
          register_descriptors_exn_no_failures)
  qed
qed

lemma make_patterns_exn_accepted:
  "\<forall>ex \<in> set exs. make_doc_exn R ex = None \<Longrightarrow>
     make_patterns_exn R P exs = Inr (map (make_doc P) exs)"
  by (induction exs) simp_all

lemma build_rules_exn_accepted:
  "\<forall>i \<in> set is. \<forall>ex \<in> set (examples i). make_doc_exn R ex = None \<Longrightarrow>
     build_rules_exn R P is = Inr (map (\<lambda>i. (name i, map (make_doc P) (examples i))) is)"
  by (induction "is") (simp_all add: make_patterns_exn_accepted)

lemma build_matchers_exn_accepted:
  "\<forall>i \<in> set (intents st). \<forall>ex \<in> set (examples i). make_doc_exn R ex = None \<Longrightarrow>
     build_matchers_exn R P st =
       (None, st\<lparr>phrase_matcher :=
                  Some (map (\<lambda>i. (name i, map (make_doc P) (examples i))) (intents st))\<rparr>)"
  by (simp add: build_matchers_exn_def build_rules_exn_accepted)

lemma load_all_exn_no_failures:
  assumes "list_all (\<lambda>f. case file_error f of None \<Rightarrow> True | Some e \<Rightarrow> is_Exception e) fs"
  shows "load_all_exn no_failures P fs st = (None, fold (load_plugin_file P) fs st)"
  using assms
  by (induction fs arbitrary: st) (simp_all add: load_plugin_file_exn_no_failures)

lemma build_matchers_exn_no_failures:
  "build_matchers_exn no_failures P st = (None, build_matchers P st)"
proof -
  have "\<forall>i \<in> set (intents st). \<forall>ex \<in> set (examples i).
      make_doc_exn (no_failures :: 'a provider_failures) ex = None"
    by (simp add: no_failures_def)
  then show ?thesis
    by (simp add: build_matchers_exn_accepted build_matchers_def)
qed

lemma discover_plugins_exn_no_failures:
  assumes "list_all (\<lambda>f. case file_error f of None \<Rightarrow> True | Some e \<Rightarrow> is_Exception e)
             (plugin_files files)"
  shows "discover_plugins_exn no_failures P files st = (None, discover_plugins P files st)"
  by (simp add: discover_plugins_exn_def discover_plugins_def
      load_all_exn_no_failures [OF assms] build_matchers_exn_no_failures)

text \<open>What loading leaves behind, field by field.\<close>

lemma cache_examples_exn_fields:
  "fst (cache_examples_exn R P n exs st) = first_refusal (nlp_exn R) exs"
  "intents (snd (cache_examples_exn R P n exs st)) = intents st"
  "plugin_errors (snd (cache_examples_exn R P n exs st)) = plugin_errors st"
  "phrase_matcher (snd (cache_examples_exn R P n exs st)) = phrase_matcher st"
  by (induction exs arbitrary: st) (simp_all split: option.splits)

lemma register_intent_exn_fields:
  "fst (register_intent_exn R P i st) = first_refusal (nlp_exn R) (examples i)"
  "intents (snd (register_intent_exn R P i st)) = intents st @ [i]"
  "plugin_errors (snd (register_intent_exn R P i st)) = plugin_errors st"
  "phrase_matcher (snd (register_intent_exn R P i st)) = phrase_matcher st"
  by (simp_all add: register_intent_exn_def cache_examples_exn_fields)

lemma register_intent_exn_result:
  obtains st' where
    "register_intent_exn R P i st = (first_refusal (nlp_exn R) (examples i), st')"
    "intents st' = intents st @ [i]" "plugin_errors st' = plugin_errors st"
    "phrase_matcher st' = phrase_matcher st"
proof -
  have "register_intent_exn R P i st =
      (first_refusal (nlp_exn R) (examples i), snd (register_intent_exn R P i st))"
    by (metis register_intent_exn_fields(1) prod.collapse)
  then show ?thesis using that register_intent_exn_fields(2,3,4) by blast
qed

lemma register_descriptors_exn_fields:
  "fst (register_descriptors_exn R P m pn ds st) = first_failure_exn R m pn ds"
  "intents (snd (register_descriptors_exn R P m pn ds st)) =
     intents st @ registered_prefix_exn R m pn ds"
  "plugin_errors (snd (register_descriptors_exn R P m pn ds st)) = plugin_errors st"
  "phrase_matcher (snd (register_descriptors_exn R P m pn ds st)) = phrase_matcher st"
proof (induction ds arbitrary: st)
  case Nil
  { case 1 show ?case by simp }
  { case 2 show ?case by simp }
  { case 3 show ?case by simp }
  { case 4 show ?case by simp }
next
  case (Cons d ds)
  have step: "fst (register_descriptors_exn R P m pn (d # ds) st) = first_failure_exn R m pn (d # ds) \<and>
      intents (snd (register_descriptors_exn R P m pn (d # ds) st)) =
        intents st @ registered_prefix_exn R m pn (d # ds) \<and>
      plugin_errors (snd (register_descriptors_exn R P m pn (d # ds) st)) = plugin_errors st \<and>
      phrase_matcher (snd (register_descriptors_exn R P m pn (d # ds) st)) = phrase_matcher st"
    for st
  proof (cases "intent_from_dict d m pn")
    case (Inl err)
    then show ?thesis by simp
  next
    case (Inr i)
    obtain st' where st': "register_intent_exn R P i st = (first_refusal (nlp_exn R) (examples i), st')"
      "intents st' = intents st @ [i]" "plugin_errors st' = plugin_errors st"
      "phrase_matcher st' = phrase_matcher st"
      by (rule register_intent_exn_result)
    show ?thesis
    proof (cases "first_refusal (nlp_exn R) (examples i)")
      case None
      with Inr st' show ?thesis by (simp add: Cons.IH)
    next
      case (Some err)
      with Inr st' show ?thesis by simp
    qed
  qed
  { case 1 show ?case using step by blast }
  { case 2 show ?case using step by blast }
  { case 3 show ?case using step by blast }
  { case 4 show ?case using step by blast }
qed

lemma register_descriptors_exn_result:
  obtains st' where
    "register_descriptors_exn R P m pn ds st = (first_failure_exn R m pn ds, st')"
    "intents st' = intents st @ registered_prefix_exn R m pn ds"
    "plugin_errors st' = plugin_errors st" "phrase_matcher st' = phrase_matcher st"
proof -
  have "register_descriptors_exn R P m pn ds st =
      (first_failure_exn R m pn ds, snd (register_descriptors_exn R P m pn ds st))"
    by (metis register_descriptors_exn_fields(1) prod.collapse)
  then show ?thesis using that register_descriptors_exn_fields(2,3,4) by blast
qed

lemma load_plugin_file_exn_fields:
  "fst (load_plugin_file_exn R P f st) = escaping (file_error_exn R f)"
  "intents (snd (load_plugin_file_exn R P f st)) = intents st @ file_intents_exn R f"
  "plugin_errors (snd (load_plugin_file_exn R P f st)) =
     record_error (path_stem (file_name f)) (caught (file_error_exn R f)) (plugin_errors st)"
  "phrase_matcher (snd (load_plugin_file_exn R P f st)) = phrase_matcher st"
proof -
  let ?pn = "path_stem (file_name f)"
  have all: "fst (load_plugin_file_exn R P f st) = escaping (file_error_exn R f) \<and>
     intents (snd (load_plugin_file_exn R P f st)) = intents st @ file_intents_exn R f \<and>
     plugin_errors (snd (load_plugin_file_exn R P f st)) =
       record_error ?pn (caught (file_error_exn R f)) (plugin_errors st) \<and>
     phrase_matcher (snd (load_plugin_file_exn R P f st)) = phrase_matcher st"
  proof (cases "exec_with_repair f")
    case (Inl err)
    then show ?thesis
      by (simp add: load_plugin_file_exn_def file_error_exn_def file_intents_exn_def
          escaping_def caught_def record_error_def)
  next
    case (Inr m)
    obtain st' where st':
      "register_descriptors_exn R P m ?pn (extract_intents m) st =
         (first_failure_exn R m ?pn (extract_intents m), st')"
      "intents st' = intents st @ registered_prefix_exn R m ?pn (extract_intents m)"
      "plugin_errors st' = plugin_errors st" "phrase_matcher st' = phrase_matcher st"
      by (rule register_descriptors_exn_result)
    show ?thesis
    proof (cases "first_failure_exn R m ?pn (extract_intents m)")
      case None
      with Inr st' show ?thesis
        by (simp add: load_plugin_file_exn_def file_error_exn_def file_intents_exn_def
            escaping_def caught_def record_error_def)
    next
      case (Some e)
      with Inr st' show ?thesis
        by (simp add: load_plugin_file_exn_def file_error_exn_def file_intents_exn_def
            escaping_def caught_def record_error_def)
    qed
  qed
  from all show "fst (load_plugin_file_exn R P f st) = escaping (file_error_exn R f)" by blast
  from all show "intents (snd (load_plugin_file_exn R P f st)) = intents st @ file_intents_exn R f"
    by blast
  from all show "plugin_errors (snd (load_plugin_file_exn R P f st)) =
     record_error ?pn (caught (file_error_exn R f)) (plugin_errors st)" by blast
  from all show "phrase_matcher (snd (load_plugin_file_exn R P f st)) = phrase_matcher st" by blast
qed

lemma only_Exceptions_file:
  "only_Exceptions R fs \<Longrightarrow> f \<in> set fs \<Longrightarrow>
     escaping (file_error_exn R f) = None \<and> caught (file_error_exn R f) = file_error_exn R f"
  by (auto simp: only_Exceptions_def list_all_iff escaping_def caught_def split: option.splits)

lemma load_all_exn_fields:
  assumes "only_Exceptions R fs"
  shows "fst (load_all_exn R P fs st) = None"
    and "intents (snd (load_all_exn R P fs st)) = intents st @ concat (map (file_intents_exn R) fs)"
    and "plugin_errors (snd (load_all_exn R P fs st)) =
           record_errors (file_error_exn R) fs (plugin_errors st)"
    and "phrase_matcher (snd (load_all_exn R P fs st)) = phrase_matcher st"
proof -
  have all: "fst (load_all_exn R P fs st) = None \<and>
      intents (snd (load_all_exn R P fs st)) = intents st @ concat (map (file_intents_exn R) fs) \<and>
      plugin_errors (snd (load_all_exn R P fs st)) =
        record_errors (file_error_exn R) fs (plugin_errors st) \<and>
      phrase_matcher (snd (load_all_exn R P fs st)) = phrase_matcher st"
    using assms
  proof (induction fs arbitrary: st)
    case Nil
    show ?case by simp
  next
    case (Cons f fs)
    have rest: "only_Exceptions R fs" using Cons.prems by (simp add: only_Exceptions_def)
    have this_file: "escaping (file_error_exn R f) = None"
      "caught (file_error_exn R f) = file_error_exn R f"
      using only_Exceptions_file [OF Cons.prems, of f] by simp_all
    note l = load_plugin_file_exn_fields [of R P f st, unfolded this_file]
    have "load_plugin_file_exn R P f st = (None, snd (load_plugin_file_exn R P f st))"
      by (metis l(1) prod.collapse)
    then obtain st' where st': "load_plugin_file_exn R P f st = (None, st')"
      "intents st' = intents st @ file_intents_exn R f"
      "plugin_errors st' =
         record_error (path_stem (file_name f)) (file_error_exn R f) (plugin_errors st)"
      "phrase_matcher st' = phrase_matcher st"
      using l(2,3,4) by blast
    show ?case using st' Cons.IH [OF rest, of st'] by simp
  qed
  from all show "fst (load_all_exn R P fs st) = None" by blast
  from all show "intents (snd (load_all_exn R P fs st)) =
    intents st @ concat (map (file_intents_exn R) fs)" by blast
  from all show "plugin_errors (snd (load_all_exn R P fs st)) =
           record_errors (file_error_exn R) fs (plugin_errors st)" by blast
  from all show "phrase_matcher (snd (load_all_exn R P fs st)) = phrase_matcher st" by blast
qed

lemma discover_plugins_exn_split:
  assumes "only_Exceptions R (plugin_files files)"
  obtains st1 where
    "load_all_exn R P (plugin_files files) (st\<lparr>intents := []\<rparr>) = (None, st1)"
    "intents st1 = concat (map (file_intents_exn R) (plugin_files files))"
    "plugin_errors st1 = record_errors (file_error_exn R) (plugin_files files) (plugin_errors st)"
    "phrase_matcher st1 = phrase_matcher st"
proof -
  note l = load_all_exn_fields [OF assms, of P "st\<lparr>intents := []\<rparr>"]
  have "load_all_exn R P (plugin_files files) (st\<lparr>intents := []\<rparr>) =
      (None, snd (load_all_exn R P (plugin_files files) (st\<lparr>intents := []\<rparr>)))"
    by (metis l(1) prod.collapse)
  then show ?thesis using that l(2,3,4) by simp
qed

lemma load_alone_exn:
  assumes "only_Exceptions R fs" and "f \<in> set fs"
  shows "fst (load_plugin_file_exn R P f init_core) = None"
    and "intents (snd (load_plugin_file_exn R P f init_core)) = file_intents_exn R f"
    and "plugin_errors (snd (load_plugin_file_exn R P f init_core)) =
           record_error (path_stem (file_name f)) (file_error_exn R f) Map.empty"
  using only_Exceptions_file [OF assms]
  by (simp_all add: load_plugin_file_exn_fields init_core_def)

lemma alarm_plugin_files:
  "plugin_files alarm_files =
     [file_of ''alarm.py'' (Inr alarm_module),
      file_of ''broken.py'' (Inl (OtherError ''invalid syntax'')),
      file_of ''chat.py'' (Inr chat_module),
      file_of ''greet.py'' (Inr greet_module)]"
  by (simp add: plugin_files_def alarm_files_def demo_files_def file_of_def)

lemma alarm_file_errors:
  "file_error_exn boom_unembedded (file_of ''alarm.py'' (Inr alarm_module))
     = Some (OtherError ''text refused'')"
  "file_error_exn boom_unembedded (file_of ''broken.py'' (Inl (OtherError ''invalid syntax'')))
     = Some (OtherError ''invalid syntax'')"
  "file_error_exn boom_unembedded (file_of ''chat.py'' (Inr chat_module)) = None"
  "file_error_exn boom_unembedded (file_of ''greet.py'' (Inr greet_module)) = None"
  by (simp_all add: file_error_exn_def exec_with_repair_def file_of_def extract_intents_def
      intent_from_dict_def resolve_handler_def default_chat_descriptor_def
      alarm_module_def chat_module_def greet_module_def boom_unembedded_def)

lemma alarm_file_intents:
  "map name (file_intents_exn boom_unembedded (file_of ''alarm.py'' (Inr alarm_module))) = [''alarm'']"
  "file_intents_exn boom_unembedded (file_of ''broken.py'' (Inl (OtherError ''invalid syntax''))
     :: string list plugin_file) = []"
  "map name (file_intents_exn boom_unembedded (file_of ''chat.py'' (Inr chat_module))) = [''chat'']"
  "map name (file_intents_exn boom_unembedded (file_of ''greet.py'' (Inr greet_module))) = [''greet'']"
  by (simp_all add: file_intents_exn_def exec_with_repair_def file_of_def extract_intents_def
      intent_from_dict_def resolve_handler_def default_chat_descriptor_def
      alarm_module_def chat_module_def greet_module_def boom_unembedded_def)

text \<open>
  C4, as the code has it.  When loading no file raises anything but an instance of
  \<open>Exception\<close>, the loop over the files ends without raising; the intent list then
  holds, in the order of the files, what each file registers when loaded alone,
  whatever the other files do; the stem of every file whose loading raised is in the
  error map, with the message of its exception when the files have different stems.
  Discovery then builds the matcher, and completes with the matcher of exactly the
  registered intents when the tokenizer accepts each of their examples.
\<close>

theorem discovery_exn_isolates_exceptions:
  assumes "only_Exceptions R (plugin_files files)"
  shows "\<exists>st1.
     load_all_exn R P (plugin_files files) (st\<lparr>intents := []\<rparr>) = (None, st1) \<and>
     intents st1 = concat (map (file_intents_exn R) (plugin_files files)) \<and>
     (\<forall>f \<in> set (plugin_files files).
        fst (load_plugin_file_exn R P f init_core) = None \<and>
        intents (snd (load_plugin_file_exn R P f init_core)) = file_intents_exn R f \<and>
        plugin_errors (snd (load_plugin_file_exn R P f init_core)) =
          record_error (path_stem (file_name f)) (file_error_exn R f) Map.empty \<and>
        (\<forall>e. file_error_exn R f = Some e \<longrightarrow>
           path_stem (file_name f) \<in> dom (plugin_errors st1) \<and>
           (distinct (map (\<lambda>f. path_stem (file_name f)) (plugin_files files)) \<longrightarrow>
              plugin_errors st1 (path_stem (file_name f)) = Some (str_exn e)))) \<and>
     discover_plugins_exn R P files st = build_matchers_exn R P st1 \<and>
     ((\<forall>i \<in> set (intents st1). \<forall>ex \<in> set (examples i). make_doc_exn R ex = None) \<longrightarrow>
        discover_plugins_exn R P files st =
          (None, st1\<lparr>phrase_matcher :=
                       Some (map (\<lambda>i. (name i, map (make_doc P) (examples i))) (intents st1))\<rparr>))"
proof -
  obtain st1 where st1:
    "load_all_exn R P (plugin_files files) (st\<lparr>intents := []\<rparr>) = (None, st1)"
    "intents st1 = concat (map (file_intents_exn R) (plugin_files files))"
    "plugin_errors st1 = record_errors (file_error_exn R) (plugin_files files) (plugin_errors st)"
    using assms by (rule discover_plugins_exn_split)
  have d: "discover_plugins_exn R P files st = build_matchers_exn R P st1"
    by (simp add: discover_plugins_exn_def st1(1))
  have files: "\<forall>f \<in> set (plugin_files files).
        fst (load_plugin_file_exn R P f init_core) = None \<and>
        intents (snd (load_plugin_file_exn R P f init_core)) = file_intents_exn R f \<and>
        plugin_errors (snd (load_plugin_file_exn R P f init_core)) =
          record_error (path_stem (file_name f)) (file_error_exn R f) Map.empty \<and>
        (\<forall>e. file_error_exn R f = Some e \<longrightarrow>
           path_stem (file_name f) \<in> dom (plugin_errors st1) \<and>
           (distinct (map (\<lambda>f. path_stem (file_name f)) (plugin_files files)) \<longrightarrow>
              plugin_errors st1 (path_stem (file_name f)) = Some (str_exn e)))"
  proof (intro ballI conjI allI impI)
    fix f assume f: "f \<in> set (plugin_files files)"
    show "fst (load_plugin_file_exn R P f init_core) = None"
      using assms f by (rule load_alone_exn)
    show "intents (snd (load_plugin_file_exn R P f init_core)) = file_intents_exn R f"
      using assms f by (rule load_alone_exn)
    show "plugin_errors (snd (load_plugin_file_exn R P f init_core)) =
          record_error (path_stem (file_name f)) (file_error_exn R f) Map.empty"
      using assms f by (rule load_alone_exn)
  next
    fix f e assume f: "f \<in> set (plugin_files files)" and e: "file_error_exn R f = Some e"
    show "path_stem (file_name f) \<in> dom (plugin_errors st1)"
      unfolding st1(3) using f e by (rule record_errors_failed)
  next
    fix f e assume f: "f \<in> set (plugin_files files)" and e: "file_error_exn R f = Some e"
      and dist: "distinct (map (\<lambda>f. path_stem (file_name f)) (plugin_files files))"
    show "plugin_errors st1 (path_stem (file_name f)) = Some (str_exn e)"
      unfolding st1(3) record_errors_distinct [OF f dist]
      by (simp add: record_error_def e)
  qed
  have complete: "(\<forall>i \<in> set (intents st1). \<forall>ex \<in> set (examples i). make_doc_exn R ex = None) \<longrightarrow>
        discover_plugins_exn R P files st =
          (None, st1\<lparr>phrase_matcher :=
                       Some (map (\<lambda>i. (name i, map (make_doc P) (examples i))) (intents st1))\<rparr>)"
    unfolding d by (intro impI build_matchers_exn_accepted)
  from st1(1,2) files d complete show ?thesis by blast
qed

theorem discovery_exn_isolates_exceptions_witness:
  "only_Exceptions boom_unembedded (plugin_files alarm_files) \<and>
   file_error_exn boom_unembedded (file_of ''alarm.py'' (Inr alarm_module))
     = Some (OtherError ''text refused'') \<and>
   file_error_exn boom_unembedded (file_of ''broken.py'' (Inl (OtherError ''invalid syntax'')))
     = Some (OtherError ''invalid syntax'') \<and>
   fst (discover_plugins_exn boom_unembedded stub_provider alarm_files init_core) = None \<and>
   map name (intents (snd (discover_plugins_exn boom_unembedded stub_provider alarm_files init_core)))
     = [''alarm'', ''chat'', ''greet''] \<and>
   plugin_errors (snd (discover_plugins_exn boom_unembedded stub_provider alarm_files init_core))
     ''alarm'' = Some ''text refused'' \<and>
   plugin_errors (snd (discover_plugins_exn boom_unembedded stub_provider alarm_files init_core))
     ''broken'' = Some ''invalid syntax'' \<and>
   phrase_matcher (snd (discover_plugins_exn boom_unembedded stub_provider alarm_files init_core))
     \<noteq> None"
proof -
  let ?a = "file_of ''alarm.py'' (Inr alarm_module) :: string list plugin_file"
  let ?b = "file_of ''broken.py'' (Inl (OtherError ''invalid syntax'')) :: string list plugin_file"
  let ?D = "discover_plugins_exn boom_unembedded stub_provider alarm_files init_core"
  have H: "only_Exceptions boom_unembedded (plugin_files alarm_files)"
    by (simp add: only_Exceptions_def alarm_plugin_files alarm_file_errors)
  have mem: "?a \<in> set (plugin_files alarm_files)" "?b \<in> set (plugin_files alarm_files)"
    by (simp_all add: alarm_plugin_files)
  have dist: "distinct (map (\<lambda>f. path_stem (file_name f)) (plugin_files alarm_files))"
    by (simp add: alarm_plugin_files path_stem_def file_of_def)
  have stems: "path_stem (file_name ?a) = ''alarm''" "path_stem (file_name ?b) = ''broken''"
    by (simp_all add: path_stem_def file_of_def)
  from discovery_exn_isolates_exceptions [OF H, of stub_provider init_core]
  obtain st1 where
    i: "intents st1 = concat (map (file_intents_exn boom_unembedded) (plugin_files alarm_files))"
    and e: "\<forall>f \<in> set (plugin_files alarm_files). \<forall>e. file_error_exn boom_unembedded f = Some e \<longrightarrow>
           (distinct (map (\<lambda>f. path_stem (file_name f)) (plugin_files alarm_files)) \<longrightarrow>
              plugin_errors st1 (path_stem (file_name f)) = Some (str_exn e))"
    and c: "(\<forall>i \<in> set (intents st1). \<forall>ex \<in> set (examples i). make_doc_exn boom_unembedded ex = None) \<longrightarrow>
        ?D = (None, st1\<lparr>phrase_matcher :=
                       Some (map (\<lambda>i. (name i, map (make_doc stub_provider) (examples i)))
                              (intents st1))\<rparr>)"
    by blast
  have names: "map name (intents st1) = [''alarm'', ''chat'', ''greet'']"
    unfolding i by (simp add: alarm_plugin_files alarm_file_intents map_concat)
  have ea: "plugin_errors st1 ''alarm'' = Some ''text refused''"
    using e [rule_format, OF mem(1) alarm_file_errors(1) dist] by (simp add: stems)
  have eb: "plugin_errors st1 ''broken'' = Some ''invalid syntax''"
    using e [rule_format, OF mem(2) alarm_file_errors(2) dist] by (simp add: stems)
  have "\<forall>i \<in> set (intents st1). \<forall>ex \<in> set (examples i). make_doc_exn boom_unembedded ex = None"
    by (simp add: boom_unembedded_def)
  with c have D: "?D = (None, st1\<lparr>phrase_matcher :=
                       Some (map (\<lambda>i. (name i, map (make_doc stub_provider) (examples i)))
                              (intents st1))\<rparr>)"
    by blast
  show ?thesis unfolding D using H alarm_file_errors(1,2) names ea eb by simp
qed

text \<open>
  C4 as stated fails.  A plugin that raises \<open>SystemExit\<close> ends discovery: the exception
  leaves \<open>discover_plugins\<close>, the file after it is never loaded and no matcher is
  built.  And a plugin with an example that the provider refuses is recorded in the
  error map, but its intent is in the list already, so \<open>_build_matchers\<close> meets the
  example again, raises outside every \<open>try\<close>, and no matcher is built.  Last, of two
  failing files with the stem \<open>.py\<close> the error map keeps the message of the later one.
\<close>

theorem discovery_exn_aborts:
  "fst (discover_plugins_exn no_failures stub_provider exit_files init_core)
     = Some (SystemExit ''bye'') \<and>
   intents (snd (discover_plugins_exn no_failures stub_provider exit_files init_core)) = [] \<and>
   phrase_matcher (snd (discover_plugins_exn no_failures stub_provider exit_files init_core)) = None \<and>
   fst (discover_plugins_exn boom_refused stub_provider alarm_files init_core)
     = Some (OtherError ''text refused'') \<and>
   map name (intents (snd (discover_plugins_exn boom_refused stub_provider alarm_files init_core)))
     = [''alarm'', ''chat'', ''greet''] \<and>
   plugin_errors (snd (discover_plugins_exn boom_refused stub_provider alarm_files init_core))
     ''alarm'' = Some ''text refused'' \<and>
   phrase_matcher (snd (discover_plugins_exn boom_refused stub_provider alarm_files init_core)) = None \<and>
   map (\<lambda>f. path_stem (file_name f)) (plugin_files dot_files) = [''.py'', ''.py''] \<and>
   map file_error (plugin_files dot_files) = [Some (OtherError ''first''), Some (OtherError ''second'')] \<and>
   plugin_errors (snd (discover_plugins_exn no_failures stub_provider dot_files init_core)) ''.py''
     = Some ''second''"
proof -
  have df: "plugin_files dot_files =
      [file_of ''.py'' (Inl (OtherError ''first'')), file_of ''.py.py'' (Inl (OtherError ''second''))]"
    by (simp add: plugin_files_def dot_files_def file_of_def)
  have 3: "map (\<lambda>f. path_stem (file_name f)) (plugin_files dot_files) = [''.py'', ''.py''] \<and>
     map file_error (plugin_files dot_files)
       = [Some (OtherError ''first''), Some (OtherError ''second'')] \<and>
     plugin_errors (snd (discover_plugins_exn no_failures stub_provider dot_files init_core)) ''.py''
       = Some ''second''"
    by (simp add: df discover_plugins_exn_def load_plugin_file_exn_def exec_with_repair_def
        file_error_def file_of_def init_core_def path_stem_def build_matchers_exn_def Let_def)
  have pf: "plugin_files exit_files =
      [file_of ''exit.py'' (Inl (SystemExit ''bye'')), file_of ''greet.py'' (Inr greet_module)]"
    by (simp add: plugin_files_def exit_files_def file_of_def)
  have 1: "discover_plugins_exn no_failures stub_provider exit_files init_core =
      (Some (SystemExit ''bye''), init_core)"
    by (simp add: discover_plugins_exn_def pf load_plugin_file_exn_def exec_with_repair_def
        file_of_def init_core_def Let_def)
  have 2: "fst (discover_plugins_exn boom_refused stub_provider alarm_files init_core)
       = Some (OtherError ''text refused'') \<and>
     map name (intents (snd (discover_plugins_exn boom_refused stub_provider alarm_files init_core)))
       = [''alarm'', ''chat'', ''greet''] \<and>
     plugin_errors (snd (discover_plugins_exn boom_refused stub_provider alarm_files init_core))
       ''alarm'' = Some ''text refused'' \<and>
     phrase_matcher (snd (discover_plugins_exn boom_refused stub_provider alarm_files init_core)) = None"
    by (simp add: discover_plugins_exn_def alarm_plugin_files load_plugin_file_exn_def
        exec_with_repair_def file_of_def init_core_def extract_intents_def intent_from_dict_def
        resolve_handler_def default_chat_descriptor_def register_intent_exn_def
        build_matchers_exn_def path_stem_def alarm_module_def chat_module_def greet_module_def
        boom_refused_def stub_provider_def Let_def)
  from 1 2 3 show ?thesis by (simp add: init_core_def)
qed

end
